theory Spec2Isabelle
  imports Main
begin

section \<open>co-curl: concurrent download of one file in parts\<close>

text \<open>
  A shallow embedding of \<^verbatim>\<open>co_curl.cpp\<close>. The functions \<^verbatim>\<open>download\<close>,
  \<^verbatim>\<open>check_files\<close>, \<^verbatim>\<open>merge_files\<close> and \<^verbatim>\<open>main\<close> are translated
  statement by statement; every \<^verbatim>\<open>for\<close> loop is a recursive function over its
  loop variable.

  What lies outside the source is an input of the model:
  \<^item> the disk is a map from path names to the contents of the regular files that
    exist; opening a file for reading succeeds when it exists, removing a file that
    exists succeeds, and whether a file can be created is an input;
  \<^item> libcurl is an oracle giving the outcome of each transfer attempt;
  \<^item> the value returned by \<^verbatim>\<open>get_file_size\<close> is an argument of \<^verbatim>\<open>main\<close>.

  Numbers are HOL integers. The source computes with \<^verbatim>\<open>int\<close> and
  \<^verbatim>\<open>long long\<close>; every value that the source stores in an \<^verbatim>\<open>int\<close> goes
  through \<open>to_int32\<close>: the numbers read from the command line, their absolute
  values, and the part count of the planner. The expression \<^verbatim>\<open>num_part-1\<close> is
  computed exactly; it leaves \<^verbatim>\<open>int\<close> only at a part count of \<open>- 2 ^ 31\<close>, where
  C++ leaves the subtraction undefined. The constant \<^verbatim>\<open>1E6\<close>, a
  \<^verbatim>\<open>double\<close> in the source, is the integer 1000000 (the two agree on all sizes
  below \<open>2 ^ 53\<close>). Messages written to the terminal are not part of the model.
\<close>

subsection \<open>Constants\<close>

definition DEFAULT_NUM_THREADS :: int where
  "DEFAULT_NUM_THREADS = 8"

definition MIN_FILE_SIZE_FOR_PARALLEL :: int where
  "MIN_FILE_SIZE_FOR_PARALLEL = 1000"

definition NUM_TRY_DOWNLOAD :: nat where
  "NUM_TRY_DOWNLOAD = 5"

subsection \<open>Files and names\<close>

type_synonym path = string
type_synonym bytes = string
type_synonym disk = "path \<rightharpoonup> bytes"

text \<open>\<^verbatim>\<open>std::to_string\<close> on an integer: decimal digits, with a sign when negative.\<close>

fun digits10 :: "nat \<Rightarrow> string" where
  "digits10 n =
     (if n < 10 then [''0123456789'' ! n]
      else digits10 (n div 10) @ [''0123456789'' ! (n mod 10)])"

declare digits10.simps [simp del]

definition to_string :: "int \<Rightarrow> string" where
  "to_string i = (if i < 0 then CHR ''-'' # digits10 (nat (- i)) else digits10 (nat i))"

text \<open>The name of part \<open>i\<close>: \<^verbatim>\<open>filename + ".part" + std::to_string(i)\<close>.\<close>

definition part_name :: "path \<Rightarrow> int \<Rightarrow> path" where
  "part_name filename i = filename @ ''.part'' @ to_string i"

text \<open>\<^verbatim>\<open>std::remove\<close>: the file is gone afterwards; removing an absent file fails
  silently (the source ignores the result).\<close>

definition remove_file :: "disk \<Rightarrow> path \<Rightarrow> disk" where
  "remove_file d p = d(p := None)"

subsection \<open>The two queries of \<^verbatim>\<open>std::filesystem\<close> used by the verifier\<close>

text \<open>
  The source calls the overloads of \<^verbatim>\<open>fs::is_empty\<close> and \<^verbatim>\<open>fs::file_size\<close> that
  take no \<^verbatim>\<open>std::error_code\<close>. For a path that does not exist both report the error
  by throwing \<^verbatim>\<open>std::filesystem::filesystem_error\<close>. Nothing in the source catches
  it.
\<close>

datatype fs_error = filesystem_error path

definition fs_is_empty :: "disk \<Rightarrow> path \<Rightarrow> fs_error + bool" where
  "fs_is_empty d p = (case d p of None \<Rightarrow> Inl (filesystem_error p) | Some c \<Rightarrow> Inr (c = []))"

definition fs_file_size :: "disk \<Rightarrow> path \<Rightarrow> fs_error + int" where
  "fs_file_size d p =
     (case d p of None \<Rightarrow> Inl (filesystem_error p) | Some c \<Rightarrow> Inr (int (length c)))"

subsection \<open>\<^verbatim>\<open>check_files\<close>\<close>

text \<open>
  The loop of \<^verbatim>\<open>check_files\<close>, entered at index \<open>i\<close> with the current value of
  \<^verbatim>\<open>all_present\<close>. The result is \<open>Inl\<close> when an exception leaves the function.
\<close>

function check_loop :: "disk \<Rightarrow> path \<Rightarrow> int \<Rightarrow> int \<Rightarrow> int \<Rightarrow> int \<Rightarrow> int \<Rightarrow> fs_error + int" where
  "check_loop d filename num_part chunk_size last_part_size i all_present =
     (if i < num_part then
        (case fs_is_empty d (part_name filename i) of
           Inl e \<Rightarrow> Inl e
         | Inr is_emp \<Rightarrow>
             (let all_present1 = (if is_emp then 0 else all_present) in
              if i \<noteq> num_part - 1 then
                (case fs_file_size d (part_name filename i) of
                   Inl e \<Rightarrow> Inl e
                 | Inr sz \<Rightarrow>
                     check_loop d filename num_part chunk_size last_part_size (i + 1)
                       (if sz + 1000000 < chunk_size then - 1 else all_present1))
              else
                (case fs_file_size d (part_name filename i) of
                   Inl e \<Rightarrow> Inl e
                 | Inr sz \<Rightarrow>
                     check_loop d filename num_part chunk_size last_part_size (i + 1)
                       (if sz + 1000000 < last_part_size then - 1 else all_present1))))
      else Inr all_present)"
  by pat_completeness auto
termination
  by (relation "measure (\<lambda>(d, filename, num_part, chunk_size, last_part_size, i, all_present).
        nat (num_part - i))") auto

declare check_loop.simps [simp del]

definition check_files :: "disk \<Rightarrow> path \<Rightarrow> int \<Rightarrow> int \<Rightarrow> int \<Rightarrow> fs_error + int" where
  "check_files d filename num_part chunk_size last_part_size =
     check_loop d filename num_part chunk_size last_part_size 0 1"

subsection \<open>\<^verbatim>\<open>download\<close>\<close>

text \<open>
  What one pass through the retry loop meets, as libcurl and the C library report it:
  \<^item> \<open>CannotOpen\<close>: \<^verbatim>\<open>fopen(output_filename, "wb")\<close> returned \<^verbatim>\<open>NULL\<close>;
  \<^item> \<open>TransportError body\<close>: \<^verbatim>\<open>curl_easy_perform\<close> wrote \<open>body\<close> and returned an
    error code;
  \<^item> \<open>Performed rc body\<close>: \<^verbatim>\<open>curl_easy_perform\<close> wrote \<open>body\<close> and returned
    \<^verbatim>\<open>CURLE_OK\<close>; \<open>rc\<close> is the HTTP response code when \<^verbatim>\<open>curl_easy_getinfo\<close>
    could read it.
\<close>

datatype attempt =
  CannotOpen | is_TransportError: TransportError bytes | is_Performed: Performed "int option" bytes

record dl_state =
  dl_disk :: disk
  dl_tries :: nat
  dl_performs :: nat

text \<open>
  The loop \<^verbatim>\<open>for(int i=0 ; i<NUM_TRY_DOWNLOAD ; ++i)\<close>. \<open>dl_tries\<close> counts the passes
  through the loop body, \<open>dl_performs\<close> the calls of \<^verbatim>\<open>curl_easy_perform\<close>.
  \<^verbatim>\<open>continue\<close> and the end of the body go to the next index; \<^verbatim>\<open>break\<close> returns.
\<close>

function download_loop :: "(nat \<Rightarrow> attempt) \<Rightarrow> path \<Rightarrow> nat \<Rightarrow> dl_state \<Rightarrow> dl_state" where
  "download_loop curl output_filename i st =
     (if i < NUM_TRY_DOWNLOAD then
        (case curl i of
           CannotOpen \<Rightarrow>
             download_loop curl output_filename (i + 1) (st\<lparr>dl_tries := dl_tries st + 1\<rparr>)
         | TransportError body \<Rightarrow>
             download_loop curl output_filename (i + 1)
               (st\<lparr>dl_disk := remove_file ((dl_disk st)(output_filename \<mapsto> body)) output_filename,
                   dl_tries := dl_tries st + 1, dl_performs := dl_performs st + 1\<rparr>)
         | Performed rc body \<Rightarrow>
             (case rc of
                Some response_code \<Rightarrow>
                  (if response_code \<ge> 400 then
                     st\<lparr>dl_disk := remove_file ((dl_disk st)(output_filename \<mapsto> body)) output_filename,
                        dl_tries := dl_tries st + 1, dl_performs := dl_performs st + 1\<rparr>
                   else
                     st\<lparr>dl_disk := (dl_disk st)(output_filename \<mapsto> body),
                        dl_tries := dl_tries st + 1, dl_performs := dl_performs st + 1\<rparr>)
              | None \<Rightarrow>
                  st\<lparr>dl_disk := (dl_disk st)(output_filename \<mapsto> body),
                     dl_tries := dl_tries st + 1, dl_performs := dl_performs st + 1\<rparr>))
      else st)"
  by pat_completeness auto
termination
  by (relation "measure (\<lambda>(curl, output_filename, i, st). NUM_TRY_DOWNLOAD - i)") auto

declare download_loop.simps [simp del]

text \<open>
  \<^verbatim>\<open>download\<close>. The first argument is \<open>None\<close> when \<^verbatim>\<open>curl_easy_init\<close> fails, and
  otherwise the outcomes of the attempts on the handle. The byte range only goes into
  the request, so it is an argument of the oracle in \<open>main\<close>, not of this function.
\<close>

definition download :: "(nat \<Rightarrow> attempt) option \<Rightarrow> path \<Rightarrow> disk \<Rightarrow> dl_state" where
  "download handle output_filename d =
     (case handle of
        None \<Rightarrow> \<lparr>dl_disk = d, dl_tries = 0, dl_performs = 0\<rparr>
      | Some curl \<Rightarrow> download_loop curl output_filename 0 \<lparr>dl_disk = d, dl_tries = 0, dl_performs = 0\<rparr>)"

subsection \<open>\<^verbatim>\<open>merge_files\<close>\<close>

text \<open>
  The output stream has a state. \<^verbatim>\<open>output_file << part_file.rdbuf()\<close> on a stream
  that is not good writes nothing; on a good stream it copies the part, and when it
  has copied no character (the part is empty) it sets \<^verbatim>\<open>failbit\<close> on the output
  stream. The source never looks at the state nor clears it.
\<close>

record merge_state =
  m_disk :: disk
  m_good :: bool
  m_opened :: "int list"

definition stream_insert :: "path \<Rightarrow> bytes \<Rightarrow> merge_state \<Rightarrow> merge_state" where
  "stream_insert output_filename c st =
     (if m_good st then
        (if c = [] then st\<lparr>m_good := False\<rparr>
         else st\<lparr>m_disk := (m_disk st)(output_filename \<mapsto>
                 (case m_disk st output_filename of None \<Rightarrow> c | Some old \<Rightarrow> old @ c))\<rparr>)
      else st)"

text \<open>
  The loop of \<^verbatim>\<open>merge_files\<close>; the Boolean is \<^verbatim>\<open>normal_exit\<close>. \<open>m_opened\<close>
  lists the indices of the parts the loop tried to open. Opening a part for reading
  succeeds when the file exists.
\<close>

function merge_loop :: "path \<Rightarrow> int \<Rightarrow> int \<Rightarrow> merge_state \<Rightarrow> bool \<times> merge_state" where
  "merge_loop output_filename num_part i st =
     (if i < num_part then
        (case m_disk st (part_name output_filename i) of
           None \<Rightarrow> (False, st\<lparr>m_opened := m_opened st @ [i]\<rparr>)
         | Some c \<Rightarrow>
             merge_loop output_filename num_part (i + 1)
               (stream_insert output_filename c (st\<lparr>m_opened := m_opened st @ [i]\<rparr>)))
      else (True, st))"
  by pat_completeness auto
termination
  by (relation "measure (\<lambda>(output_filename, num_part, i, st). nat (num_part - i))") auto

declare merge_loop.simps [simp del]

text \<open>
  \<open>can_create p\<close> says whether \<^verbatim>\<open>std::ofstream\<close> can create or truncate \<open>p\<close>. When it
  can, the file exists and is empty before the loop starts.
\<close>

definition merge_files :: "(path \<Rightarrow> bool) \<Rightarrow> disk \<Rightarrow> path \<Rightarrow> int \<Rightarrow> bool \<times> merge_state" where
  "merge_files can_create d output_filename num_part =
     (if \<not> can_create output_filename then
        (False, \<lparr>m_disk = d, m_good = False, m_opened = []\<rparr>)
      else
        merge_loop output_filename num_part 0
          \<lparr>m_disk = d(output_filename \<mapsto> []), m_good = True, m_opened = []\<rparr>)"

subsection \<open>Numbers of the command line\<close>

text \<open>A \<^verbatim>\<open>long long\<close> stored into an \<^verbatim>\<open>int\<close> keeps its low 32 bits, and a
  \<^verbatim>\<open>long long\<close> passed as \<^verbatim>\<open>std::uintmax_t\<close> its value modulo \<open>2 ^ 64\<close>.\<close>

definition to_int32 :: "int \<Rightarrow> int" where
  "to_int32 x = (x + 2 ^ 31) mod 2 ^ 32 - 2 ^ 31"

definition to_uintmax :: "int \<Rightarrow> int" where
  "to_uintmax x = x mod 2 ^ 64"

text \<open>
  \<^verbatim>\<open>std::atoi\<close>, \<^verbatim>\<open>std::atoll\<close> and the unqualified \<^verbatim>\<open>abs\<close> belong to the C
  library, not to the source. They are modelled as the library of the build (glibc on
  a 64-bit Linux) computes them. \<^verbatim>\<open>strtol\<close> skips leading white space, reads an
  optional sign and the longest run of decimal digits (\<open>decimal\<close>; 0 when there is no
  digit) and stops at the ends of \<^verbatim>\<open>long\<close>. \<^verbatim>\<open>atoi\<close> is \<^verbatim>\<open>strtol\<close> converted
  to \<^verbatim>\<open>int\<close>, so that a numeral from \<open>2 ^ 31\<close> on wraps around; \<^verbatim>\<open>atoll\<close> is
  \<^verbatim>\<open>strtoll\<close>, of the same range. The \<^verbatim>\<open>abs\<close> that the source calls is
  \<^verbatim>\<open>int abs(int)\<close>: its value at \<open>- 2 ^ 31\<close> is \<open>- 2 ^ 31\<close>, and applied to the
  \<^verbatim>\<open>long long\<close> of \<^verbatim>\<open>atoll\<close> it first narrows its argument to \<^verbatim>\<open>int\<close>.
\<close>

definition isspace :: "char \<Rightarrow> bool" where
  "isspace c = (c \<in> set [CHR '' '', CHR 0x09, CHR 0x0A, CHR 0x0B, CHR 0x0C, CHR 0x0D])"

definition isdigit :: "char \<Rightarrow> bool" where
  "isdigit c = (c \<in> set ''0123456789'')"

fun atoi_digits :: "string \<Rightarrow> int \<Rightarrow> int" where
  "atoi_digits [] acc = acc"
| "atoi_digits (c # cs) acc =
     (if isdigit c then atoi_digits cs (acc * 10 + (of_char c - 48)) else acc)"

definition decimal :: "string \<Rightarrow> int" where
  "decimal s =
     (case dropWhile isspace s of
        [] \<Rightarrow> 0
      | c # cs \<Rightarrow>
          if c = CHR ''-'' then - atoi_digits cs 0
          else if c = CHR ''+'' then atoi_digits cs 0
          else atoi_digits (c # cs) 0)"

definition strtol :: "string \<Rightarrow> int" where
  "strtol s = max (- (2 ^ 63)) (min (2 ^ 63 - 1) (decimal s))"

definition atoi :: "string \<Rightarrow> int" where
  "atoi s = to_int32 (strtol s)"

definition atoll :: "string \<Rightarrow> int" where
  "atoll s = strtol s"

definition abs_int :: "int \<Rightarrow> int" where
  "abs_int x = to_int32 \<bar>to_int32 x\<bar>"

text \<open>Division of C++ on integers truncates towards zero.\<close>

definition cdiv :: "int \<Rightarrow> int \<Rightarrow> int" where
  "cdiv a b = sgn a * sgn b * (\<bar>a\<bar> div \<bar>b\<bar>)"

subsection \<open>The variables of \<^verbatim>\<open>main\<close> and the option loop\<close>

record args =
  num_thread :: int
  num_part :: int
  chunk_size :: int
  mode :: int
  part_index :: int
  username :: string
  password :: string
  url :: string
  output_filename :: string
  verbose :: bool
  start :: bool
  normal_exit :: bool

definition initial_args :: args where
  "initial_args =
     \<lparr>num_thread = DEFAULT_NUM_THREADS, num_part = - 1, chunk_size = - 1, mode = 0,
      part_index = - 1, username = [], password = [], url = [], output_filename = [],
      verbose = False, start = True, normal_exit = True\<rparr>"

text \<open>
  The loop over \<^verbatim>\<open>argv[1..argc-1]\<close>: the first argument is what is left of the
  command line. \<^verbatim>\<open>i+1<argc\<close> says that something is left after the current word,
  \<^verbatim>\<open>i==argc-1\<close> that nothing is. Each \<^verbatim>\<open>break\<close> returns the variables as they are.
\<close>

fun parse_args :: "string list \<Rightarrow> args \<Rightarrow> args" where
  "parse_args [] a = a"
| "parse_args (arg # rest) a =
     (if arg = ''-nth'' \<or> arg = ''--num-thread'' then
        (case rest of
           v # rest' \<Rightarrow>
             parse_args rest'
               (a\<lparr>num_thread := (if abs_int (atoi v) = 0 then DEFAULT_NUM_THREADS else abs_int (atoi v))\<rparr>)
         | [] \<Rightarrow> a\<lparr>start := False, normal_exit := False\<rparr>)
      else if arg = ''-np'' \<or> arg = ''--num-part'' then
        (case rest of
           v # rest' \<Rightarrow>
             parse_args rest'
               (a\<lparr>num_part := (if abs_int (atoi v) = 0 then - 1 else abs_int (atoi v)), chunk_size := - 1\<rparr>)
         | [] \<Rightarrow> a\<lparr>start := False, normal_exit := False\<rparr>)
      else if arg = ''-cs'' \<or> arg = ''--chunk-size'' then
        (case rest of
           v # rest' \<Rightarrow>
             parse_args rest'
               (a\<lparr>chunk_size := (if abs_int (atoll v) < 10 then - 1 else abs_int (atoll v)),
                  num_part := - 1\<rparr>)
         | [] \<Rightarrow> a\<lparr>start := False, normal_exit := False\<rparr>)
      else if arg = ''-s'' \<or> arg = ''--single-part'' then
        (case rest of
           v # rest' \<Rightarrow>
             (if abs_int (atoi v) < 0 then
                a\<lparr>mode := 1, part_index := abs_int (atoi v), start := False, normal_exit := False\<rparr>
              else parse_args rest' (a\<lparr>mode := 1, part_index := abs_int (atoi v)\<rparr>))
         | [] \<Rightarrow> a\<lparr>mode := 1, start := False, normal_exit := False\<rparr>)
      else if arg = ''-m'' \<or> arg = ''--merge'' then
        parse_args rest (a\<lparr>mode := 2\<rparr>)
      else if arg = ''-o'' \<or> arg = ''--output'' then
        (case rest of
           v # rest' \<Rightarrow> parse_args rest' (a\<lparr>output_filename := v\<rparr>)
         | [] \<Rightarrow> a\<lparr>start := False, normal_exit := False\<rparr>)
      else if arg = ''-u'' \<or> arg = ''--username'' then
        (case rest of
           v # rest' \<Rightarrow> parse_args rest' (a\<lparr>username := v\<rparr>)
         | [] \<Rightarrow> a\<lparr>start := False, normal_exit := False\<rparr>)
      else if arg = ''-p'' \<or> arg = ''--password'' then
        (case rest of
           v # rest' \<Rightarrow> parse_args rest' (a\<lparr>password := v\<rparr>)
         | [] \<Rightarrow> a\<lparr>start := False, normal_exit := False\<rparr>)
      else if arg = ''-v'' \<or> arg = ''--verbose'' then
        parse_args rest (a\<lparr>verbose := True\<rparr>)
      else if arg = ''-h'' \<or> arg = ''--help'' then
        a\<lparr>start := False, normal_exit := True\<rparr>
      else
        (if rest = [] then parse_args rest (a\<lparr>url := arg\<rparr>)
         else a\<lparr>start := False, normal_exit := False\<rparr>))"

declare parse_args.simps(2) [simp del]

text \<open>
  What holds of the variables whenever the option loop ends without a \<^verbatim>\<open>break\<close>.
  Each number is an \<^verbatim>\<open>int\<close>. The thread count is positive or \<open>- 2 ^ 31\<close> (the
  absolute value that \<^verbatim>\<open>abs\<close> gives for it). The part count is unset (\<open>- 1\<close>), at
  least 1, or \<open>- 2 ^ 31\<close>, which the planner takes for unset since it tests
  \<^verbatim>\<open>num_part < 0\<close>. The chunk size is unset or at least 10. They are never both
  set. The part index is \<open>- 1\<close> without \<^verbatim>\<open>-s\<close> and not negative after it: the test
  \<^verbatim>\<open>part_index < 0\<close> at line 361 stops the one negative value that \<^verbatim>\<open>abs\<close>
  can give.
\<close>

definition args_ok :: "args \<Rightarrow> bool" where
  "args_ok a =
     ((1 \<le> num_thread a \<or> num_thread a = - (2 ^ 31)) \<and> num_thread a < 2 ^ 31 \<and>
      (num_part a = - 1 \<or> 1 \<le> num_part a \<or> num_part a = - (2 ^ 31)) \<and>
      num_part a < 2 ^ 31 \<and>
      (chunk_size a = - 1 \<or> 10 \<le> chunk_size a \<and> chunk_size a < 2 ^ 31) \<and>
      (num_part a = - 1 \<or> chunk_size a = - 1) \<and>
      (mode a = 0 \<and> part_index a = - 1 \<or> mode a = 1 \<and> 0 \<le> part_index a \<or>
       mode a = 2 \<and> - 1 \<le> part_index a) \<and>
      part_index a < 2 ^ 31 \<and>
      start a \<and> normal_exit a)"

text \<open>\<^verbatim>\<open>url.substr(url.find_last_of('/') + 1)\<close>: what follows the last slash, and the
  whole of \<open>url\<close> when it has none.\<close>

definition after_last_slash :: "string \<Rightarrow> string" where
  "after_last_slash u = rev (takeWhile (\<lambda>c. c \<noteq> CHR ''/'') (rev u))"

subsection \<open>Planning: part count and chunk size\<close>

text \<open>
  Lines 438 to 456 of \<^verbatim>\<open>main\<close>, for a remote size \<open>file_size\<close>. The branch that
  prints ``Something wrong internally'' changes nothing. \<^verbatim>\<open>chunk_size *= 1E6\<close> is
  the product with 1000000. The divisors are positive whenever the option loop has run
  (lemma \<open>plan_shape\<close> below), so that no division by zero is left out of the model.
\<close>

definition small_file :: "int \<Rightarrow> args \<Rightarrow> args" where
  "small_file file_size a =
     (if file_size < MIN_FILE_SIZE_FOR_PARALLEL
      then a\<lparr>mode := - 1, chunk_size := - 1, num_part := 1\<rparr> else a)"

definition split_parts :: "int \<Rightarrow> args \<Rightarrow> args" where
  "split_parts file_size a =
     (if chunk_size a < 0 then
        (let a1 = (if num_part a < 0 then a\<lparr>num_part := num_thread a\<rparr> else a)
         in a1\<lparr>chunk_size := cdiv file_size (num_part a1)\<rparr>)
      else
        (if num_part a < 0 then
           (let a1 = a\<lparr>chunk_size := chunk_size a * 1000000\<rparr>
            in a1\<lparr>num_part := to_int32 (cdiv file_size (chunk_size a1) + 1)\<rparr>)
         else a))"

definition limit_threads :: "args \<Rightarrow> args" where
  "limit_threads a =
     (if mode a = 0 \<and> num_part a < num_thread a then a\<lparr>num_thread := num_part a\<rparr> else a)"

definition plan :: "int \<Rightarrow> args \<Rightarrow> args" where
  "plan file_size a = limit_threads (split_parts file_size (small_file file_size a))"

subsection \<open>Downloading, checking, merging and removing in \<^verbatim>\<open>main\<close>\<close>

text \<open>
  The network gives, for a download into a file and a byte range, the outcome of
  \<^verbatim>\<open>curl_easy_init\<close> and of the attempts. A run records the calls of
  \<^verbatim>\<open>download\<close> with their ranges, the value of \<^verbatim>\<open>check_files\<close> and of
  \<^verbatim>\<open>merge_files\<close> when they are called, and the exit code; \<open>r_exit = None\<close> is
  the end of the process by an exception that nothing catches.
\<close>

type_synonym network = "path \<Rightarrow> int \<Rightarrow> int \<Rightarrow> (nat \<Rightarrow> attempt) option"

record run =
  r_disk :: disk
  r_calls :: "(path \<times> int \<times> int) list"
  r_status :: "(fs_error + int) option"
  r_merged :: "bool option"
  r_exit :: "int option"

definition call_download :: "network \<Rightarrow> path \<Rightarrow> int \<Rightarrow> int \<Rightarrow> run \<Rightarrow> run" where
  "call_download net filename range_start range_end r =
     r\<lparr>r_disk := dl_disk (download (net filename range_start range_end) filename (r_disk r)),
       r_calls := r_calls r @ [(filename, range_start, range_end)]\<rparr>"

text \<open>The body shared by the parallel loop and by the single-part mode: the inclusive
  range of part \<open>i\<close> and its download.\<close>

definition part_first :: "int \<Rightarrow> int \<Rightarrow> int" where
  "part_first chunk i = i * chunk"

definition part_last :: "int \<Rightarrow> int \<Rightarrow> int \<Rightarrow> int \<Rightarrow> int" where
  "part_last file_size parts chunk i =
     (if i = parts - 1 then file_size - 1 else part_first chunk i + chunk - 1)"

definition download_part :: "network \<Rightarrow> int \<Rightarrow> args \<Rightarrow> int \<Rightarrow> run \<Rightarrow> run" where
  "download_part net file_size a i r =
     call_download net (part_name (output_filename a) i)
       (part_first (chunk_size a) i) (part_last file_size (num_part a) (chunk_size a) i) r"

text \<open>
  The loop under \<^verbatim>\<open>#pragma omp parallel for\<close>, in the order of the indices. Every
  iteration writes one file that no other iteration touches, and the network answers
  per file, so the order of the iterations does not change the disk at the join.
\<close>

function download_all :: "network \<Rightarrow> int \<Rightarrow> args \<Rightarrow> int \<Rightarrow> run \<Rightarrow> run" where
  "download_all net file_size a i r =
     (if i < num_part a then download_all net file_size a (i + 1) (download_part net file_size a i r)
      else r)"
  by pat_completeness auto
termination
  by (relation "measure (\<lambda>(net, file_size, a, i, r). nat (num_part a - i))") auto

declare download_all.simps [simp del]

function remove_parts :: "path \<Rightarrow> int \<Rightarrow> int \<Rightarrow> disk \<Rightarrow> disk" where
  "remove_parts filename parts i d =
     (if i < parts then remove_parts filename parts (i + 1) (remove_file d (part_name filename i))
      else d)"
  by pat_completeness auto
termination
  by (relation "measure (\<lambda>(filename, parts, i, d). nat (parts - i))") auto

declare remove_parts.simps [simp del]

text \<open>The block ``Check, Merge, Remove''.\<close>

definition check_merge_remove :: "(path \<Rightarrow> bool) \<Rightarrow> int \<Rightarrow> args \<Rightarrow> run \<Rightarrow> run" where
  "check_merge_remove can_create file_size a r =
     (case check_files (r_disk r) (output_filename a) (num_part a) (to_uintmax (chunk_size a))
             (to_uintmax (file_size - (num_part a - 1) * chunk_size a)) of
        Inl e \<Rightarrow> r\<lparr>r_status := Some (Inl e), r_exit := None\<rparr>
      | Inr part_status \<Rightarrow>
          (if part_status \<noteq> 0 then
             (case merge_files can_create (r_disk r) (output_filename a) (num_part a) of
                (ok, ms) \<Rightarrow>
                  (if ok then
                     r\<lparr>r_disk := (if part_status = 1
                                   then remove_parts (output_filename a) (num_part a) 0 (m_disk ms)
                                   else m_disk ms),
                       r_status := Some (Inr part_status), r_merged := Some ok, r_exit := Some 0\<rparr>
                   else
                     r\<lparr>r_disk := remove_file (m_disk ms) (output_filename a),
                       r_status := Some (Inr part_status), r_merged := Some ok, r_exit := Some 1\<rparr>))
           else
             r\<lparr>r_disk := remove_file (r_disk r) (output_filename a),
               r_status := Some (Inr part_status), r_exit := Some 1\<rparr>))"

subsection \<open>\<^verbatim>\<open>main\<close>\<close>

definition stopped :: "disk \<Rightarrow> int \<Rightarrow> run" where
  "stopped d code =
     \<lparr>r_disk = d, r_calls = [], r_status = None, r_merged = None, r_exit = Some code\<rparr>"

text \<open>Lines 306 to 434: the options, the test for a URL, the default output name.
  \<open>Inl\<close> carries the exit code of an early \<^verbatim>\<open>return\<close>.\<close>

definition configure :: "string list \<Rightarrow> int + args" where
  "configure argv =
     (let a = parse_args (tl argv) initial_args in
      if \<not> start a then Inl (if normal_exit a then 0 else 1)
      else if url a = [] then Inl 1
      else if output_filename a = [] then Inr (a\<lparr>output_filename := after_last_slash (url a)\<rparr>)
      else Inr a)"

text \<open>Lines 436 to 566, for the value \<open>file_size\<close> that \<^verbatim>\<open>get_file_size\<close> returned.\<close>

definition execute :: "int \<Rightarrow> network \<Rightarrow> (path \<Rightarrow> bool) \<Rightarrow> disk \<Rightarrow> args \<Rightarrow> run" where
  "execute file_size net can_create d a0 =
     (if file_size \<le> 0 then stopped d 1
      else
        (let a = plan file_size a0 in
         if part_index a > num_part a - 1 then stopped d 1
         else if \<not> normal_exit a then stopped d 1
         else
           (let r0 = \<lparr>r_disk = d, r_calls = [], r_status = None, r_merged = None,
                      r_exit = Some (if normal_exit a then 0 else 1)\<rparr>;
                r1 = (if mode a = - 1 then
                        call_download net (output_filename a) 0 (file_size - 1) r0
                      else if mode a = 0 then download_all net file_size a 0 r0
                      else if mode a = 1 then download_part net file_size a (part_index a) r0
                      else r0)
            in if mode a = 0 \<or> mode a = 2 then check_merge_remove can_create file_size a r1
               else r1)))"

text \<open>\<open>get_file_size\<close> is the remote size that the probe of a URL reports: positive, or
  \<open>- 1\<close> for each of its failures.\<close>

definition main :: "string list \<Rightarrow> (string \<Rightarrow> int) \<Rightarrow> network \<Rightarrow> (path \<Rightarrow> bool) \<Rightarrow> disk \<Rightarrow> run" where
  "main argv get_file_size net can_create d =
     (case configure argv of
        Inl code \<Rightarrow> stopped d code
      | Inr a \<Rightarrow> execute (get_file_size (url a)) net can_create d a)"

section \<open>Properties\<close>

subsection \<open>The verifier and a part that is absent\<close>

lemma check_loop_absent:
  "i \<le> k \<Longrightarrow> k < parts \<Longrightarrow> d (part_name filename k) = None \<Longrightarrow>
   \<exists>e. check_loop d filename parts c l i ap = Inl e"
proof (induction d filename parts c l i ap rule: check_loop.induct)
  case (1 d filename parts c l i ap)
  show ?case
  proof (cases "d (part_name filename i)")
    case None
    with 1 show ?thesis
      by (subst check_loop.simps) (simp add: fs_is_empty_def)
  next
    case (Some content)
    with 1 have ik: "i \<noteq> k" by auto
    with 1 have lt: "i + 1 \<le> k" "i < parts" by auto
    show ?thesis
    proof (cases "i \<noteq> parts - 1")
      case True
      from "1.IH"(1)[OF lt(2) _ _ True, of "content = []" "if content = [] then 0 else ap"
          "int (length content)"] Some lt "1.prems"
      show ?thesis
        by (subst check_loop.simps) (simp add: fs_is_empty_def fs_file_size_def)
    next
      case False
      with lt "1.prems" show ?thesis by simp
    qed
  qed
qed

text \<open>Whatever the expected sizes, \<^verbatim>\<open>check_files\<close> does not return when one of the
  parts \<open>0 .. parts - 1\<close> does not exist: the exception leaves it.\<close>

lemma check_files_absent:
  "0 \<le> k \<Longrightarrow> k < parts \<Longrightarrow> d (part_name filename k) = None \<Longrightarrow>
   \<exists>e. check_files d filename parts c l = Inl e"
  unfolding check_files_def by (rule check_loop_absent)

text \<open>
  C4. The claim: for an index whose part file does not exist, \<^verbatim>\<open>check_files\<close>
  returns normally and classifies the part as missing. The code at two parts of
  expected size 1000 of which only part 0 exists: \<^verbatim>\<open>fs::is_empty\<close> throws on
  \<^verbatim>\<open>f.part1\<close>, \<^verbatim>\<open>check_files\<close> returns nothing, and a merge-only run of \<open>main\<close>
  on that disk ends by the exception instead of an exit code.
\<close>

theorem check_files_missing_part_throws:
  "check_files [''f.part0'' \<mapsto> ''abc''] ''f'' 2 1000 1000 = Inl (filesystem_error ''f.part1'') \<and>
   (let r = main [''co-curl'', ''-m'', ''-np'', ''2'', ''http://h/f''] (\<lambda>u. 2000)
              (\<lambda>f s e. None) (\<lambda>p. True) [''f.part0'' \<mapsto> ''abc'']
    in r_status r = Some (Inl (filesystem_error ''f.part1'')) \<and> r_exit r = None)"
  by code_simp

text \<open>
  C1. The claim: when any part is missing or empty the verdict is Missing and no merge
  is attempted, even when other parts are undersized. The code on three parts for a
  remote size of 3000002 (chunk size 1000000, last part 1000002), where part 0 is
  empty and part 2 holds one byte: the assignment \<^verbatim>\<open>all_present = -1\<close> for part 2
  overwrites the 0 that part 0 had set, \<^verbatim>\<open>check_files\<close> returns \<open>- 1\<close>, and \<open>main\<close>
  merges and exits with 0.
\<close>

theorem check_files_empty_part_overridden:
  "check_files [''f.part0'' \<mapsto> [], ''f.part1'' \<mapsto> ''b'', ''f.part2'' \<mapsto> ''c'']
     ''f'' 3 1000000 1000002 = Inr (- 1) \<and>
   (let r = main [''co-curl'', ''-m'', ''-np'', ''3'', ''http://h/f''] (\<lambda>u. 3000002)
              (\<lambda>f s e. None) (\<lambda>p. True)
              [''f.part0'' \<mapsto> [], ''f.part1'' \<mapsto> ''b'', ''f.part2'' \<mapsto> ''c'']
    in r_status r = Some (Inr (- 1)) \<and> r_merged r = Some True \<and> r_exit r = Some 0)"
  by code_simp

subsection \<open>The retry loop of \<^verbatim>\<open>download\<close>\<close>

lemma download_loop_end: "\<not> i < NUM_TRY_DOWNLOAD \<Longrightarrow> download_loop curl f i st = st"
  by (subst download_loop.simps) simp

lemma download_loop_CannotOpen:
  "i < NUM_TRY_DOWNLOAD \<Longrightarrow> curl i = CannotOpen \<Longrightarrow>
   download_loop curl f i st = download_loop curl f (i + 1) (st\<lparr>dl_tries := dl_tries st + 1\<rparr>)"
  by (subst download_loop.simps) simp

lemma download_loop_TransportError:
  "i < NUM_TRY_DOWNLOAD \<Longrightarrow> curl i = TransportError b \<Longrightarrow>
   download_loop curl f i st =
     download_loop curl f (i + 1)
       (st\<lparr>dl_disk := (dl_disk st)(f := None), dl_tries := dl_tries st + 1,
           dl_performs := dl_performs st + 1\<rparr>)"
  by (subst download_loop.simps) (simp add: remove_file_def)

lemma download_loop_Performed:
  "i < NUM_TRY_DOWNLOAD \<Longrightarrow> curl i = Performed rc b \<Longrightarrow>
   download_loop curl f i st =
     st\<lparr>dl_disk := (dl_disk st)(f := (if \<exists>c. rc = Some c \<and> c \<ge> 400 then None else Some b)),
        dl_tries := dl_tries st + 1, dl_performs := dl_performs st + 1\<rparr>"
  by (subst download_loop.simps) (auto simp add: remove_file_def split: option.splits)

lemmas download_loop_step =
  download_loop_end download_loop_CannotOpen download_loop_TransportError download_loop_Performed

lemma download_loop_other:
  "q \<noteq> f \<Longrightarrow> dl_disk (download_loop curl f i st) q = dl_disk st q"
proof (induction curl f i st rule: download_loop.induct)
  case (1 curl f i st)
  then show ?case
    by (cases "i < NUM_TRY_DOWNLOAD"; cases "curl i")
       (simp_all add: download_loop_step remove_file_def)
qed

lemma download_loop_counts:
  "dl_tries (download_loop curl f i st) + i \<le> dl_tries st + max i NUM_TRY_DOWNLOAD \<and>
   dl_performs (download_loop curl f i st) + dl_tries st
     \<le> dl_tries (download_loop curl f i st) + dl_performs st"
proof (induction curl f i st rule: download_loop.induct)
  case (1 curl f i st)
  show ?case
  proof (cases "i < NUM_TRY_DOWNLOAD")
    case False
    then show ?thesis by (simp add: download_loop_step)
  next
    case True
    then show ?thesis
    proof (cases "curl i")
      case CannotOpen
      from "1.IH"(1)[OF True CannotOpen] True CannotOpen show ?thesis
        by (simp add: download_loop_step)
    next
      case (TransportError b)
      from "1.IH"(2)[OF True TransportError] True TransportError show ?thesis
        by (simp add: download_loop_step remove_file_def)
    next
      case (Performed rc b)
      with True show ?thesis by (simp add: download_loop_step)
    qed
  qed
qed

lemma download_loop_stops:
  "i \<le> k \<Longrightarrow> k < NUM_TRY_DOWNLOAD \<Longrightarrow> (\<forall>j. i \<le> j \<and> j < k \<longrightarrow> \<not> is_Performed (curl j)) \<Longrightarrow>
   curl k = Performed rc b \<Longrightarrow>
   dl_tries (download_loop curl f i st) = dl_tries st + (k - i) + 1 \<and>
   dl_disk (download_loop curl f i st) f = (if \<exists>c. rc = Some c \<and> c \<ge> 400 then None else Some b)"
proof (induction curl f i st rule: download_loop.induct)
  case (1 curl f i st)
  from "1.prems" have lt: "i < NUM_TRY_DOWNLOAD" by simp
  show ?case
  proof (cases "curl i")
    case CannotOpen
    with "1.prems" have "i \<noteq> k" by auto
    with "1.prems" "1.IH"(1)[OF lt CannotOpen] CannotOpen lt show ?thesis
      by (simp add: download_loop_step)
  next
    case (TransportError x)
    with "1.prems" have "i \<noteq> k" by auto
    with "1.prems" "1.IH"(2)[OF lt TransportError] TransportError lt show ?thesis
      by (simp add: download_loop_step remove_file_def)
  next
    case (Performed x y)
    with "1.prems" have "i = k" by (cases "i = k") auto
    with "1.prems" Performed lt show ?thesis
      by (simp add: download_loop_step)
  qed
qed

lemma download_loop_exhausted_tries:
  "(\<forall>j. i \<le> j \<and> j < NUM_TRY_DOWNLOAD \<longrightarrow> \<not> is_Performed (curl j)) \<Longrightarrow>
   dl_tries (download_loop curl f i st) = dl_tries st + (NUM_TRY_DOWNLOAD - i)"
proof (induction curl f i st rule: download_loop.induct)
  case (1 curl f i st)
  show ?case
  proof (cases "i < NUM_TRY_DOWNLOAD")
    case False
    then show ?thesis by (simp add: download_loop_step)
  next
    case lt: True
    show ?thesis
    proof (cases "curl i")
      case CannotOpen
      with "1.prems" "1.IH"(1)[OF lt CannotOpen] lt show ?thesis
        by (simp add: download_loop_step)
    next
      case (TransportError x)
      with "1.prems" "1.IH"(2)[OF lt TransportError] lt show ?thesis
        by (simp add: download_loop_step remove_file_def)
    next
      case (Performed x y)
      with "1.prems" lt show ?thesis by auto
    qed
  qed
qed

lemma download_loop_exhausted_disk:
  "(\<forall>j. i \<le> j \<and> j < NUM_TRY_DOWNLOAD \<longrightarrow> \<not> is_Performed (curl j)) \<Longrightarrow>
   dl_disk (download_loop curl f i st) f =
     (if \<exists>j. i \<le> j \<and> j < NUM_TRY_DOWNLOAD \<and> is_TransportError (curl j) then None else dl_disk st f)"
proof (induction curl f i st rule: download_loop.induct)
  case (1 curl f i st)
  show ?case
  proof (cases "i < NUM_TRY_DOWNLOAD")
    case False
    then show ?thesis by (auto simp add: download_loop_step)
  next
    case lt: True
    show ?thesis
    proof (cases "curl i")
      case CannotOpen
      have "(\<exists>j. i \<le> j \<and> j < NUM_TRY_DOWNLOAD \<and> is_TransportError (curl j)) =
            (\<exists>j. i + 1 \<le> j \<and> j < NUM_TRY_DOWNLOAD \<and> is_TransportError (curl j))"
      proof -
        have "i \<le> j \<and> is_TransportError (curl j) \<longleftrightarrow> i + 1 \<le> j \<and> is_TransportError (curl j)" for j
          using CannotOpen by (cases "j = i") auto
        then show ?thesis by blast
      qed
      moreover have "dl_disk (download_loop curl f i st) f =
          dl_disk (download_loop curl f (i + 1) (st\<lparr>dl_tries := dl_tries st + 1\<rparr>)) f"
        using lt CannotOpen by (simp add: download_loop_step)
      ultimately show ?thesis
        using "1.prems" "1.IH"(1)[OF lt CannotOpen] by auto
    next
      case (TransportError x)
      have ex: "\<exists>j. i \<le> j \<and> j < NUM_TRY_DOWNLOAD \<and> is_TransportError (curl j)"
        using TransportError lt by auto
      have "dl_disk (download_loop curl f i st) f = None"
      proof (cases "\<exists>j. i + 1 \<le> j \<and> j < NUM_TRY_DOWNLOAD \<and> is_TransportError (curl j)")
        case True
        with "1.prems" "1.IH"(2)[OF lt TransportError] lt TransportError show ?thesis
          by (simp add: download_loop_step remove_file_def)
      next
        case False
        with "1.prems" "1.IH"(2)[OF lt TransportError] lt TransportError show ?thesis
          by (simp add: download_loop_step remove_file_def)
      qed
      with ex show ?thesis by simp
    next
      case (Performed x y)
      with "1.prems" lt show ?thesis by auto
    qed
  qed
qed

lemma first_performed:
  fixes n :: nat
  assumes "\<not> (\<forall>j<n. \<not> is_Performed (curl j))"
  obtains m where "m < n" "is_Performed (curl m)" "\<forall>j<m. \<not> is_Performed (curl j)"
proof -
  define P where "P = (\<lambda>j. is_Performed (curl j))"
  define m where "m = (LEAST j. P j)"
  from assms obtain j where j: "j < n" "P j" unfolding P_def by auto
  have 1: "P m" unfolding m_def using j(2) by (rule LeastI)
  have "m \<le> j" unfolding m_def using j(2) by (rule Least_le)
  with j(1) have 2: "m < n" by simp
  have 3: "\<forall>i<m. \<not> P i"
  proof (intro allI impI)
    fix i assume "i < m"
    then show "\<not> P i" unfolding m_def by (rule not_less_Least)
  qed
  from 1 2 3 that show thesis unfolding P_def by simp
qed

lemma download_attempts:
  "dl_performs (download (Some curl) f d) \<le> dl_tries (download (Some curl) f d) \<and>
   dl_tries (download (Some curl) f d) \<le> NUM_TRY_DOWNLOAD"
  using download_loop_counts[of curl f 0 "\<lparr>dl_disk = d, dl_tries = 0, dl_performs = 0\<rparr>"]
  by (simp add: download_def)

lemma download_other:
  "q \<noteq> f \<Longrightarrow> dl_disk (download h f d) q = d q"
  using download_loop_other[of q f _ 0 "\<lparr>dl_disk = d, dl_tries = 0, dl_performs = 0\<rparr>"]
  by (simp add: download_def split: option.splits)

lemma download_stops:
  assumes "k < NUM_TRY_DOWNLOAD" "\<forall>j<k. \<not> is_Performed (curl j)" "curl k = Performed rc b"
  shows "dl_tries (download (Some curl) f d) = k + 1 \<and>
         dl_disk (download (Some curl) f d) f =
           (if \<exists>c. rc = Some c \<and> c \<ge> 400 then None else Some b)"
  using download_loop_stops[of 0 k curl rc b f "\<lparr>dl_disk = d, dl_tries = 0, dl_performs = 0\<rparr>"] assms
  by (simp add: download_def)

lemma download_exhausted:
  assumes "\<forall>j<NUM_TRY_DOWNLOAD. \<not> is_Performed (curl j)"
  shows "dl_tries (download (Some curl) f d) = NUM_TRY_DOWNLOAD \<and>
         dl_disk (download (Some curl) f d) f =
           (if \<exists>j<NUM_TRY_DOWNLOAD. is_TransportError (curl j) then None else d f)"
proof -
  let ?st = "\<lparr>dl_disk = d, dl_tries = 0, dl_performs = 0\<rparr>"
  have "dl_tries (download_loop curl f 0 ?st) = NUM_TRY_DOWNLOAD"
    using download_loop_exhausted_tries[of 0 curl f ?st] assms by simp
  moreover have "dl_disk (download_loop curl f 0 ?st) f =
      (if \<exists>j<NUM_TRY_DOWNLOAD. is_TransportError (curl j) then None else d f)"
    using download_loop_exhausted_disk[of 0 curl f ?st] assms by auto
  ultimately show ?thesis by (simp add: download_def)
qed

lemma download_next_attempt:
  assumes k: "k + 1 < NUM_TRY_DOWNLOAD" "\<forall>j\<le>k. \<not> is_Performed (curl j)"
  shows "k + 1 < dl_tries (download (Some curl) f d)"
proof (cases "\<forall>j<NUM_TRY_DOWNLOAD. \<not> is_Performed (curl j)")
  case True
  with download_exhausted[of curl f d] k show ?thesis by simp
next
  case False
  then obtain m where m: "m < NUM_TRY_DOWNLOAD" "is_Performed (curl m)" "\<forall>j<m. \<not> is_Performed (curl j)"
    by (rule first_performed)
  from m(2) obtain rc b where "curl m = Performed rc b" by (cases "curl m") auto
  with download_stops[OF m(1) m(3)] have "dl_tries (download (Some curl) f d) = m + 1" by simp
  moreover have "k < m" using k(2) m(2) by (cases "k < m") auto
  ultimately show ?thesis by simp
qed

text \<open>
  C2, as the code has it. \<^verbatim>\<open>download\<close> makes at most \<^verbatim>\<open>NUM_TRY_DOWNLOAD\<close> = 5
  attempts and touches no file but its own. An attempt that fails in
  \<^verbatim>\<open>fopen\<close> or in the transfer is followed by the next attempt while fewer than five
  were made (after a failed transfer the part file is removed first). The first attempt
  whose transfer completes is the last one: with a response code of 400 or more the
  part file is removed and nothing is tried again; otherwise the body stays. When no
  transfer completes in five attempts, the path holds no file if some attempt got as
  far as the transfer, and is as it was if every \<^verbatim>\<open>fopen\<close> failed.
\<close>

theorem download_retry_contract:
  "let r = download (Some curl) f d in
     dl_performs r \<le> dl_tries r \<and> dl_tries r \<le> NUM_TRY_DOWNLOAD \<and>
     (\<forall>q. q \<noteq> f \<longrightarrow> dl_disk r q = d q) \<and>
     (\<forall>k. k + 1 < NUM_TRY_DOWNLOAD \<and> (\<forall>j\<le>k. \<not> is_Performed (curl j)) \<longrightarrow> k + 1 < dl_tries r) \<and>
     (\<forall>k rc b. k < NUM_TRY_DOWNLOAD \<and> (\<forall>j<k. \<not> is_Performed (curl j)) \<and> curl k = Performed rc b \<longrightarrow>
        dl_tries r = k + 1 \<and>
        dl_disk r f = (if \<exists>c. rc = Some c \<and> c \<ge> 400 then None else Some b)) \<and>
     ((\<forall>j<NUM_TRY_DOWNLOAD. \<not> is_Performed (curl j)) \<longrightarrow>
        dl_tries r = NUM_TRY_DOWNLOAD \<and>
        dl_disk r f = (if \<exists>j<NUM_TRY_DOWNLOAD. is_TransportError (curl j) then None else d f))"
  unfolding Let_def
proof (intro conjI allI impI)
  show "dl_performs (download (Some curl) f d) \<le> dl_tries (download (Some curl) f d)"
    and "dl_tries (download (Some curl) f d) \<le> NUM_TRY_DOWNLOAD"
    using download_attempts[of curl f d] by simp_all
next
  fix q assume "q \<noteq> f"
  then show "dl_disk (download (Some curl) f d) q = d q" by (rule download_other)
next
  fix k assume "k + 1 < NUM_TRY_DOWNLOAD \<and> (\<forall>j\<le>k. \<not> is_Performed (curl j))"
  then show "k + 1 < dl_tries (download (Some curl) f d)"
    using download_next_attempt[of k curl f d] by simp
next
  fix k rc b
  assume a: "k < NUM_TRY_DOWNLOAD \<and> (\<forall>j<k. \<not> is_Performed (curl j)) \<and> curl k = Performed rc b"
  then show "dl_tries (download (Some curl) f d) = k + 1"
    using download_stops[of k curl rc b f d] by simp
  from a show "dl_disk (download (Some curl) f d) f =
      (if \<exists>c. rc = Some c \<and> c \<ge> 400 then None else Some b)"
    using download_stops[of k curl rc b f d] by simp
next
  assume a: "\<forall>j<NUM_TRY_DOWNLOAD. \<not> is_Performed (curl j)"
  then show "dl_tries (download (Some curl) f d) = NUM_TRY_DOWNLOAD"
    using download_exhausted[of curl f d] by simp
  from a show "dl_disk (download (Some curl) f d) f =
      (if \<exists>j<NUM_TRY_DOWNLOAD. is_TransportError (curl j) then None else d f)"
    using download_exhausted[of curl f d] by simp
qed

text \<open>The contract at five failed transfers and at a failed transfer followed by a
  response 404.\<close>

theorem download_retry_contract_witness:
  "(let r = download (Some (\<lambda>i. TransportError ''partial'')) ''f.part0''
              [''f.part0'' \<mapsto> ''old'', ''g'' \<mapsto> ''kept'']
    in dl_tries r = 5 \<and> dl_disk r ''f.part0'' = None \<and> dl_disk r ''g'' = Some ''kept'') \<and>
   (let r = download (Some (\<lambda>i. if i = 0 then TransportError ''partial''
                                  else Performed (Some 404) ''not found'')) ''f.part0''
              [''f.part0'' \<mapsto> ''old'']
    in 1 < dl_tries r \<and> dl_tries r = 2 \<and> dl_disk r ''f.part0'' = None)"
proof -
  let ?c1 = "\<lambda>i::nat. TransportError ''partial''"
  let ?c2 = "\<lambda>i::nat. if i = 0 then TransportError ''partial'' else Performed (Some 404) ''not found''"
  let ?d1 = "[''f.part0'' \<mapsto> ''old'', ''g'' \<mapsto> ''kept'']"
  let ?d2 = "[''f.part0'' \<mapsto> ''old'']"
  let ?r1 = "download (Some ?c1) ''f.part0'' ?d1"
  let ?r2 = "download (Some ?c2) ''f.part0'' ?d2"
  note t1 = download_retry_contract[of ?c1 "''f.part0''" ?d1, unfolded Let_def]
  note t2 = download_retry_contract[of ?c2 "''f.part0''" ?d2, unfolded Let_def]
  have a1: "\<forall>j<NUM_TRY_DOWNLOAD. \<not> is_Performed (?c1 j)" by simp
  have a2: "\<exists>j<NUM_TRY_DOWNLOAD. is_TransportError (?c1 j)"
    by (rule exI[of _ 0]) (simp add: NUM_TRY_DOWNLOAD_def)
  from t1 have "(\<forall>j<NUM_TRY_DOWNLOAD. \<not> is_Performed (?c1 j)) \<longrightarrow>
        dl_tries ?r1 = NUM_TRY_DOWNLOAD \<and>
        dl_disk ?r1 ''f.part0'' =
          (if \<exists>j<NUM_TRY_DOWNLOAD. is_TransportError (?c1 j) then None else ?d1 ''f.part0'')"
    by (elim conjE)
  with a1 a2 have w1: "dl_tries ?r1 = 5 \<and> dl_disk ?r1 ''f.part0'' = None"
    by (simp add: NUM_TRY_DOWNLOAD_def)
  from t1 have "\<forall>q. q \<noteq> ''f.part0'' \<longrightarrow> dl_disk ?r1 q = ?d1 q" by (elim conjE)
  then have "''g'' \<noteq> ''f.part0'' \<longrightarrow> dl_disk ?r1 ''g'' = ?d1 ''g''" by (rule spec)
  then have w2: "dl_disk ?r1 ''g'' = Some ''kept''" by simp
  from t2 have "\<forall>k. k + 1 < NUM_TRY_DOWNLOAD \<and> (\<forall>j\<le>k. \<not> is_Performed (?c2 j)) \<longrightarrow> k + 1 < dl_tries ?r2"
    by (elim conjE)
  then have "0 + 1 < NUM_TRY_DOWNLOAD \<and> (\<forall>j\<le>0. \<not> is_Performed (?c2 j)) \<longrightarrow> 0 + 1 < dl_tries ?r2"
    by (rule spec)
  then have w3: "1 < dl_tries ?r2" by (simp add: NUM_TRY_DOWNLOAD_def)
  from t2 have "\<forall>k rc b. k < NUM_TRY_DOWNLOAD \<and> (\<forall>j<k. \<not> is_Performed (?c2 j)) \<and> ?c2 k = Performed rc b \<longrightarrow>
        dl_tries ?r2 = k + 1 \<and>
        dl_disk ?r2 ''f.part0'' = (if \<exists>c. rc = Some c \<and> c \<ge> 400 then None else Some b)"
    by (elim conjE)
  then have "1 < NUM_TRY_DOWNLOAD \<and> (\<forall>j<1. \<not> is_Performed (?c2 j)) \<and>
        ?c2 1 = Performed (Some 404) ''not found'' \<longrightarrow>
        dl_tries ?r2 = 1 + 1 \<and>
        dl_disk ?r2 ''f.part0'' = (if \<exists>c. Some (404::int) = Some c \<and> c \<ge> 400 then None else Some ''not found'')"
    by blast
  then have w4: "dl_tries ?r2 = 2 \<and> dl_disk ?r2 ''f.part0'' = None"
    by (simp add: NUM_TRY_DOWNLOAD_def)
  from w1 w2 w3 w4 show ?thesis unfolding Let_def by blast
qed

text \<open>
  C2 as the claim has it would try again after a response of 400 or more, and leave no
  file after five failed attempts. The code stops at the first response 404 although
  the second attempt would have succeeded, and five failures of \<^verbatim>\<open>fopen\<close> leave
  a file that was there before.
\<close>

theorem download_no_retry_after_http_error:
  "(let r = download (Some (\<lambda>i. if i = 0 then Performed (Some 404) ''not found''
                                  else Performed (Some 200) ''data'')) ''f.part0'' Map.empty
    in dl_tries r = 1 \<and> dl_disk r ''f.part0'' = None) \<and>
   (let r = download (Some (\<lambda>i. CannotOpen)) ''f.part0'' [''f.part0'' \<mapsto> ''old'']
    in dl_tries r = 5 \<and> dl_disk r ''f.part0'' = Some ''old'')"
  by code_simp

subsection \<open>The loop of \<^verbatim>\<open>merge_files\<close>\<close>

lemma part_name_neq [simp]: "part_name f i \<noteq> f" "f \<noteq> part_name f i"
  by (simp_all add: part_name_def)

lemma merge_loop_end: "\<not> i < parts \<Longrightarrow> merge_loop f parts i st = (True, st)"
  by (subst merge_loop.simps) simp

lemma merge_loop_absent:
  "i < parts \<Longrightarrow> m_disk st (part_name f i) = None \<Longrightarrow>
   merge_loop f parts i st = (False, st\<lparr>m_opened := m_opened st @ [i]\<rparr>)"
  by (subst merge_loop.simps) simp

lemma merge_loop_present:
  "i < parts \<Longrightarrow> m_disk st (part_name f i) = Some c \<Longrightarrow>
   merge_loop f parts i st =
     merge_loop f parts (i + 1) (stream_insert f c (st\<lparr>m_opened := m_opened st @ [i]\<rparr>))"
  by (subst merge_loop.simps) simp

lemma stream_insert_other:
  "q \<noteq> f \<Longrightarrow> m_disk (stream_insert f c st) q = m_disk st q"
  by (simp add: stream_insert_def)

lemma merge_loop_other:
  "q \<noteq> f \<Longrightarrow> m_disk (snd (merge_loop f parts i st)) q = m_disk st q"
proof (induction f parts i st rule: merge_loop.induct)
  case (1 f parts i st)
  show ?case
  proof (cases "i < parts")
    case False
    then show ?thesis by (simp add: merge_loop_end)
  next
    case lt: True
    show ?thesis
    proof (cases "m_disk st (part_name f i)")
      case None
      with lt show ?thesis by (simp add: merge_loop_absent)
    next
      case (Some c)
      with lt "1.IH"[OF lt Some "1.prems"] "1.prems" show ?thesis
        by (simp add: merge_loop_present stream_insert_other)
    qed
  qed
qed

lemma merge_files_other:
  "q \<noteq> f \<Longrightarrow> m_disk (snd (merge_files can_create d f parts)) q = d q"
  by (simp add: merge_files_def merge_loop_other)

lemma merge_loop_prefix:
  "i \<le> k \<Longrightarrow> k \<le> parts \<Longrightarrow>
   (\<forall>j. i \<le> j \<and> j < k \<longrightarrow> m_disk st (part_name f j) = Some (data j) \<and> data j \<noteq> []) \<Longrightarrow>
   m_good st \<Longrightarrow> m_disk st f = Some acc \<Longrightarrow>
   merge_loop f parts i st =
     merge_loop f parts k
       (st\<lparr>m_opened := m_opened st @ [i..k - 1],
           m_disk := (m_disk st)(f \<mapsto> acc @ concat (map data [i..k - 1]))\<rparr>)"
proof (induction f parts i st arbitrary: acc rule: merge_loop.induct)
  case (1 f parts i st)
  show ?case
  proof (cases "i = k")
    case True
    have "(m_disk st)(f \<mapsto> acc) = m_disk st"
      using "1.prems"(5) by (rule map_upd_triv)
    with True show ?thesis by simp
  next
    case False
    with "1.prems" have lt: "i < parts" "i < k" by auto
    from "1.prems"(3) lt have here: "m_disk st (part_name f i) = Some (data i)" "data i \<noteq> []"
      by auto
    let ?st1 = "stream_insert f (data i) (st\<lparr>m_opened := m_opened st @ [i]\<rparr>)"
    have st1: "?st1 = st\<lparr>m_opened := m_opened st @ [i], m_disk := (m_disk st)(f \<mapsto> acc @ data i)\<rparr>"
      using "1.prems"(4,5) here(2) by (simp add: stream_insert_def)
    have pre: "\<forall>j. i + 1 \<le> j \<and> j < k \<longrightarrow> m_disk ?st1 (part_name f j) = Some (data j) \<and> data j \<noteq> []"
      using "1.prems"(3) by (simp add: st1)
    have "merge_loop f parts i st = merge_loop f parts (i + 1) ?st1"
      using lt(1) here(1) by (rule merge_loop_present)
    also have "\<dots> = merge_loop f parts k
       (?st1\<lparr>m_opened := m_opened ?st1 @ [i + 1..k - 1],
           m_disk := (m_disk ?st1)(f \<mapsto> (acc @ data i) @ concat (map data [i + 1..k - 1]))\<rparr>)"
      using lt "1.prems"(2) pre
      by (intro "1.IH"[OF lt(1) here(1)]) (simp_all add: st1 "1.prems"(4))
    also have "(?st1\<lparr>m_opened := m_opened ?st1 @ [i + 1..k - 1],
           m_disk := (m_disk ?st1)(f \<mapsto> (acc @ data i) @ concat (map data [i + 1..k - 1]))\<rparr>)
        = st\<lparr>m_opened := m_opened st @ [i..k - 1],
           m_disk := (m_disk st)(f \<mapsto> acc @ concat (map data [i..k - 1]))\<rparr>"
      using lt(2) by (simp add: st1 upto_rec1[of i "k - 1"])
    finally show ?thesis .
  qed
qed


lemma merge_files_refused:
  "\<not> can_create f \<Longrightarrow>
   merge_files can_create d f parts = (False, \<lparr>m_disk = d, m_good = False, m_opened = []\<rparr>)"
  by (simp add: merge_files_def)

lemma merge_files_prefix:
  assumes "can_create f" "0 \<le> k" "k \<le> parts"
    and "\<forall>j. 0 \<le> j \<and> j < k \<longrightarrow> d (part_name f j) = Some (data j) \<and> data j \<noteq> []"
  shows "merge_files can_create d f parts =
     merge_loop f parts k
       \<lparr>m_disk = d(f \<mapsto> concat (map data [0..k - 1])), m_good = True, m_opened = [0..k - 1]\<rparr>"
proof -
  let ?st = "\<lparr>m_disk = d(f \<mapsto> []), m_good = True, m_opened = []\<rparr>"
  have "merge_loop f parts 0 ?st =
     merge_loop f parts k
       (?st\<lparr>m_opened := m_opened ?st @ [0..k - 1],
           m_disk := (m_disk ?st)(f \<mapsto> [] @ concat (map data [0..k - 1]))\<rparr>)"
    using assms(2-4) by (intro merge_loop_prefix) simp_all
  with assms(1) show ?thesis by (simp add: merge_files_def)
qed

lemma merge_files_all:
  assumes "can_create f"
    and "\<forall>j. 0 \<le> j \<and> j < parts \<longrightarrow> d (part_name f j) = Some (data j) \<and> data j \<noteq> []"
  shows "merge_files can_create d f parts =
     (True, \<lparr>m_disk = d(f \<mapsto> concat (map data [0..parts - 1])), m_good = True,
             m_opened = [0..parts - 1]\<rparr>)"
proof (cases "0 \<le> parts")
  case True
  from merge_files_prefix[of can_create f parts parts d data] assms True show ?thesis
    by (simp add: merge_loop_end)
next
  case False
  with assms(1) show ?thesis by (simp add: merge_files_def merge_loop_end)
qed

lemma merge_files_first_absent:
  assumes "can_create f" "0 \<le> k" "k < parts" "d (part_name f k) = None"
    and "\<forall>j. 0 \<le> j \<and> j < k \<longrightarrow> d (part_name f j) = Some (data j) \<and> data j \<noteq> []"
  shows "merge_files can_create d f parts =
     (False, \<lparr>m_disk = d(f \<mapsto> concat (map data [0..k - 1])), m_good = True,
              m_opened = [0..k]\<rparr>)"
proof -
  from assms(3) have "k \<le> parts" by simp
  from merge_files_prefix[of can_create f k parts d data] this assms show ?thesis
    by (simp add: merge_loop_absent upto_rec2[of 0 k])
qed

text \<open>
  C5, as the code has it. \<^verbatim>\<open>merge_files\<close> changes no file but the destination.
  When the destination cannot be created it returns \<^verbatim>\<open>false\<close> and opens no part.
  When it can be created and every part \<open>0 .. parts - 1\<close> exists with contents
  \<open>data j\<close> that are not empty, it opens the parts in the order of their indices,
  returns \<^verbatim>\<open>true\<close>, and the destination holds \<open>data 0 @ \<dots> @ data (parts - 1)\<close>.
  When part \<open>k\<close> is the first that cannot be opened, it opens the parts \<open>0 .. k\<close> and
  no later one, returns \<^verbatim>\<open>false\<close>, and the destination holds the parts before
  \<open>k\<close>.
\<close>

theorem merge_files_contract:
  "let r = merge_files can_create d f parts in
     (\<forall>q. q \<noteq> f \<longrightarrow> m_disk (snd r) q = d q) \<and>
     (\<not> can_create f \<longrightarrow> \<not> fst r \<and> m_opened (snd r) = [] \<and> m_disk (snd r) f = d f) \<and>
     (can_create f \<and>
      (\<forall>j. 0 \<le> j \<and> j < parts \<longrightarrow> d (part_name f j) = Some (data j) \<and> data j \<noteq> []) \<longrightarrow>
        fst r \<and> m_opened (snd r) = [0..parts - 1] \<and>
        m_disk (snd r) f = Some (concat (map data [0..parts - 1]))) \<and>
     (\<forall>k. can_create f \<and> 0 \<le> k \<and> k < parts \<and> d (part_name f k) = None \<and>
          (\<forall>j. 0 \<le> j \<and> j < k \<longrightarrow> d (part_name f j) = Some (data j) \<and> data j \<noteq> []) \<longrightarrow>
        \<not> fst r \<and> m_opened (snd r) = [0..k] \<and>
        m_disk (snd r) f = Some (concat (map data [0..k - 1])))"
  unfolding Let_def
proof (intro conjI allI impI)
  fix q assume "q \<noteq> f"
  then show "m_disk (snd (merge_files can_create d f parts)) q = d q"
    by (rule merge_files_other)
next
  assume a: "\<not> can_create f"
  from a merge_files_refused[of can_create f d parts]
  show "\<not> fst (merge_files can_create d f parts)"
    and "m_opened (snd (merge_files can_create d f parts)) = []"
    and "m_disk (snd (merge_files can_create d f parts)) f = d f"
    by simp_all
next
  assume a: "can_create f \<and>
      (\<forall>j. 0 \<le> j \<and> j < parts \<longrightarrow> d (part_name f j) = Some (data j) \<and> data j \<noteq> [])"
  from a merge_files_all[of can_create f parts d data]
  show "fst (merge_files can_create d f parts)"
    and "m_opened (snd (merge_files can_create d f parts)) = [0..parts - 1]"
    and "m_disk (snd (merge_files can_create d f parts)) f =
           Some (concat (map data [0..parts - 1]))"
    by simp_all
next
  fix k
  assume a: "can_create f \<and> 0 \<le> k \<and> k < parts \<and> d (part_name f k) = None \<and>
          (\<forall>j. 0 \<le> j \<and> j < k \<longrightarrow> d (part_name f j) = Some (data j) \<and> data j \<noteq> [])"
  from a merge_files_first_absent[of can_create f k parts d data]
  show "\<not> fst (merge_files can_create d f parts)"
    and "m_opened (snd (merge_files can_create d f parts)) = [0..k]"
    and "m_disk (snd (merge_files can_create d f parts)) f = Some (concat (map data [0..k - 1]))"
    by simp_all
qed

lemma part_names_f [simp]:
  "part_name ''f'' 0 = ''f.part0''" "part_name ''f'' 1 = ''f.part1''"
  "part_name ''f'' 2 = ''f.part2''"
  by (simp_all add: part_name_def to_string_def digits10.simps)

text \<open>The contract at two parts that exist, at three parts of which the second is
  absent, and at a destination that cannot be created.\<close>

theorem merge_files_contract_witness:
  "(let r = merge_files (\<lambda>p. True) [''f.part0'' \<mapsto> ''ab'', ''f.part1'' \<mapsto> ''cd''] ''f'' 2
    in fst r \<and> m_opened (snd r) = [0, 1] \<and> m_disk (snd r) ''f'' = Some ''abcd'' \<and>
       m_disk (snd r) ''f.part1'' = Some ''cd'') \<and>
   (let r = merge_files (\<lambda>p. True) [''f.part0'' \<mapsto> ''ab'', ''f.part2'' \<mapsto> ''ef''] ''f'' 3
    in \<not> fst r \<and> m_opened (snd r) = [0, 1] \<and> m_disk (snd r) ''f'' = Some ''ab'') \<and>
   (let r = merge_files (\<lambda>p. False) [''f.part0'' \<mapsto> ''ab'', ''f'' \<mapsto> ''old''] ''f'' 1
    in \<not> fst r \<and> m_opened (snd r) = [] \<and> m_disk (snd r) ''f'' = Some ''old'')"
proof -
  let ?d1 = "[''f.part0'' \<mapsto> ''ab'', ''f.part1'' \<mapsto> ''cd'']"
  let ?d2 = "[''f.part0'' \<mapsto> ''ab'', ''f.part2'' \<mapsto> ''ef'']"
  let ?d3 = "[''f.part0'' \<mapsto> ''ab'', ''f'' \<mapsto> ''old'']"
  let ?data = "\<lambda>j::int. if j = 0 then ''ab'' else ''cd''"
  let ?yes = "\<lambda>p::path. True"
  let ?no = "\<lambda>p::path. False"
  have u1: "[0..2 - 1] = [0, 1::int]" "[0..1 - 1] = [0::int]" "[0..1] = [0, 1::int]"
    by (simp_all add: upto_rec1)
  have h1: "\<forall>j. 0 \<le> j \<and> j < 2 \<longrightarrow> ?d1 (part_name ''f'' j) = Some (?data j) \<and> ?data j \<noteq> []"
  proof (intro allI impI)
    fix j :: int assume "0 \<le> j \<and> j < 2"
    then have "j = 0 \<or> j = 1" by arith
    then show "?d1 (part_name ''f'' j) = Some (?data j) \<and> ?data j \<noteq> []" by auto
  qed
  have h2: "\<forall>j. 0 \<le> j \<and> j < 1 \<longrightarrow> ?d2 (part_name ''f'' j) = Some (?data j) \<and> ?data j \<noteq> []"
  proof (intro allI impI)
    fix j :: int assume "0 \<le> j \<and> j < 1"
    then have "j = 0" by arith
    then show "?d2 (part_name ''f'' j) = Some (?data j) \<and> ?data j \<noteq> []" by auto
  qed
  note t1 = merge_files_contract[of ?yes ?d1 "''f''" 2 ?data, unfolded Let_def]
  note t2 = merge_files_contract[of ?yes ?d2 "''f''" 3 ?data, unfolded Let_def]
  note t3 = merge_files_contract[of ?no ?d3 "''f''" 1 ?data, unfolded Let_def]
  from t1 h1 have w1: "fst (merge_files ?yes ?d1 ''f'' 2) \<and>
      m_opened (snd (merge_files ?yes ?d1 ''f'' 2)) = [0, 1] \<and>
      m_disk (snd (merge_files ?yes ?d1 ''f'' 2)) ''f'' = Some ''abcd''"
    by (simp add: u1)
  from t1 have "\<forall>q. q \<noteq> ''f'' \<longrightarrow> m_disk (snd (merge_files ?yes ?d1 ''f'' 2)) q = ?d1 q"
    by (elim conjE)
  then have "''f.part1'' \<noteq> ''f'' \<longrightarrow> m_disk (snd (merge_files ?yes ?d1 ''f'' 2)) ''f.part1'' = ?d1 ''f.part1''"
    by (rule spec)
  then have w1': "m_disk (snd (merge_files ?yes ?d1 ''f'' 2)) ''f.part1'' = Some ''cd''" by simp
  from t2 have "\<forall>k. ?yes ''f'' \<and> 0 \<le> k \<and> k < 3 \<and> ?d2 (part_name ''f'' k) = None \<and>
          (\<forall>j. 0 \<le> j \<and> j < k \<longrightarrow> ?d2 (part_name ''f'' j) = Some (?data j) \<and> ?data j \<noteq> []) \<longrightarrow>
        \<not> fst (merge_files ?yes ?d2 ''f'' 3) \<and> m_opened (snd (merge_files ?yes ?d2 ''f'' 3)) = [0..k] \<and>
        m_disk (snd (merge_files ?yes ?d2 ''f'' 3)) ''f'' = Some (concat (map ?data [0..k - 1]))"
    by (elim conjE)
  from this[rule_format, of 1] h2 have w2: "\<not> fst (merge_files ?yes ?d2 ''f'' 3) \<and>
      m_opened (snd (merge_files ?yes ?d2 ''f'' 3)) = [0, 1] \<and>
      m_disk (snd (merge_files ?yes ?d2 ''f'' 3)) ''f'' = Some ''ab''"
    by (simp add: u1)
  from t3 have w3: "\<not> fst (merge_files ?no ?d3 ''f'' 1) \<and>
      m_opened (snd (merge_files ?no ?d3 ''f'' 1)) = [] \<and>
      m_disk (snd (merge_files ?no ?d3 ''f'' 1)) ''f'' = Some ''old''"
    by simp
  from w1 w1' w2 w3 show ?thesis unfolding Let_def by blast
qed

text \<open>
  C5 as the claim has it: whenever every part can be opened, the call succeeds and the
  destination is the concatenation of all parts. With parts \<^verbatim>\<open>ab\<close>, empty,
  \<^verbatim>\<open>cd\<close> the insertion of the empty part sets \<^verbatim>\<open>failbit\<close>, the third part is
  opened but not written, and the destination holds \<^verbatim>\<open>ab\<close>. With a destination
  that cannot be created the call fails although both parts can be opened.
\<close>

theorem merge_files_empty_part_or_refused:
  "(let r = merge_files (\<lambda>p. True)
              [''f.part0'' \<mapsto> ''ab'', ''f.part1'' \<mapsto> [], ''f.part2'' \<mapsto> ''cd''] ''f'' 3
    in fst r \<and> m_opened (snd r) = [0, 1, 2] \<and> m_disk (snd r) ''f'' = Some ''ab'') \<and>
   (let r = merge_files (\<lambda>p. False) [''f.part0'' \<mapsto> ''ab'', ''f.part1'' \<mapsto> ''cd''] ''f'' 2
    in \<not> fst r \<and> m_opened (snd r) = [] \<and> m_disk (snd r) ''f'' = None)"
  by code_simp

subsection \<open>The option loop and the planner\<close>

lemma to_int32_range: "- (2 ^ 31) \<le> to_int32 x \<and> to_int32 x < 2 ^ 31"
  by (simp add: to_int32_def)

lemma to_int32_id: "- (2 ^ 31) \<le> x \<Longrightarrow> x < 2 ^ 31 \<Longrightarrow> to_int32 x = x"
  by (simp add: to_int32_def)

text \<open>\<^verbatim>\<open>abs\<close> gives a number that is not negative, or \<open>- 2 ^ 31\<close>.\<close>

lemma abs_int_range:
  "abs_int x = - (2 ^ 31) \<or> 0 \<le> abs_int x \<and> abs_int x < 2 ^ 31"
proof -
  define y where "y = to_int32 x"
  from to_int32_range[of x] have y: "- (2 ^ 31) \<le> y" "y < 2 ^ 31" by (simp_all add: y_def)
  show ?thesis
  proof (cases "y = - (2 ^ 31)")
    case True
    have "abs_int x = to_int32 \<bar>y\<bar>" by (simp add: abs_int_def y_def)
    also have "\<dots> = to_int32 (2 ^ 31)" using True by simp
    also have "\<dots> = - (2 ^ 31)" by (simp add: to_int32_def)
    finally show ?thesis by simp
  next
    case False
    with y have "- (2 ^ 31) \<le> \<bar>y\<bar>" "\<bar>y\<bar> < 2 ^ 31" by simp_all
    then have "to_int32 \<bar>y\<bar> = \<bar>y\<bar>" by (rule to_int32_id)
    then have "abs_int x = \<bar>y\<bar>" by (simp add: abs_int_def y_def)
    with \<open>\<bar>y\<bar> < 2 ^ 31\<close> show ?thesis by simp
  qed
qed

lemma initial_args_ok: "args_ok initial_args"
  by (simp add: args_ok_def initial_args_def DEFAULT_NUM_THREADS_def)

lemma parse_args_ok:
  "args_ok a \<Longrightarrow> start (parse_args argv a) \<Longrightarrow> args_ok (parse_args argv a)"
proof (induction argv a rule: parse_args.induct)
  case (1 a)
  then show ?case by simp
next
  case (2 arg rest a)
  consider (nth)  "arg = ''-nth'' \<or> arg = ''--num-thread''"
    | (np) "\<not> (arg = ''-nth'' \<or> arg = ''--num-thread'')" "arg = ''-np'' \<or> arg = ''--num-part''"
    | (cs) "\<not> (arg = ''-nth'' \<or> arg = ''--num-thread'')" "\<not> (arg = ''-np'' \<or> arg = ''--num-part'')" "arg = ''-cs'' \<or> arg = ''--chunk-size''"
    | (s) "\<not> (arg = ''-nth'' \<or> arg = ''--num-thread'')" "\<not> (arg = ''-np'' \<or> arg = ''--num-part'')" "\<not> (arg = ''-cs'' \<or> arg = ''--chunk-size'')" "arg = ''-s'' \<or> arg = ''--single-part''"
    | (m) "\<not> (arg = ''-nth'' \<or> arg = ''--num-thread'')" "\<not> (arg = ''-np'' \<or> arg = ''--num-part'')" "\<not> (arg = ''-cs'' \<or> arg = ''--chunk-size'')" "\<not> (arg = ''-s'' \<or> arg = ''--single-part'')" "arg = ''-m'' \<or> arg = ''--merge''"
    | (o) "\<not> (arg = ''-nth'' \<or> arg = ''--num-thread'')" "\<not> (arg = ''-np'' \<or> arg = ''--num-part'')" "\<not> (arg = ''-cs'' \<or> arg = ''--chunk-size'')" "\<not> (arg = ''-s'' \<or> arg = ''--single-part'')" "\<not> (arg = ''-m'' \<or> arg = ''--merge'')" "arg = ''-o'' \<or> arg = ''--output''"
    | (u) "\<not> (arg = ''-nth'' \<or> arg = ''--num-thread'')" "\<not> (arg = ''-np'' \<or> arg = ''--num-part'')" "\<not> (arg = ''-cs'' \<or> arg = ''--chunk-size'')" "\<not> (arg = ''-s'' \<or> arg = ''--single-part'')" "\<not> (arg = ''-m'' \<or> arg = ''--merge'')" "\<not> (arg = ''-o'' \<or> arg = ''--output'')" "arg = ''-u'' \<or> arg = ''--username''"
    | (p) "\<not> (arg = ''-nth'' \<or> arg = ''--num-thread'')" "\<not> (arg = ''-np'' \<or> arg = ''--num-part'')" "\<not> (arg = ''-cs'' \<or> arg = ''--chunk-size'')" "\<not> (arg = ''-s'' \<or> arg = ''--single-part'')" "\<not> (arg = ''-m'' \<or> arg = ''--merge'')" "\<not> (arg = ''-o'' \<or> arg = ''--output'')" "\<not> (arg = ''-u'' \<or> arg = ''--username'')" "arg = ''-p'' \<or> arg = ''--password''"
    | (v) "\<not> (arg = ''-nth'' \<or> arg = ''--num-thread'')" "\<not> (arg = ''-np'' \<or> arg = ''--num-part'')" "\<not> (arg = ''-cs'' \<or> arg = ''--chunk-size'')" "\<not> (arg = ''-s'' \<or> arg = ''--single-part'')" "\<not> (arg = ''-m'' \<or> arg = ''--merge'')" "\<not> (arg = ''-o'' \<or> arg = ''--output'')" "\<not> (arg = ''-u'' \<or> arg = ''--username'')" "\<not> (arg = ''-p'' \<or> arg = ''--password'')" "arg = ''-v'' \<or> arg = ''--verbose''"
    | (h) "\<not> (arg = ''-nth'' \<or> arg = ''--num-thread'')" "\<not> (arg = ''-np'' \<or> arg = ''--num-part'')" "\<not> (arg = ''-cs'' \<or> arg = ''--chunk-size'')" "\<not> (arg = ''-s'' \<or> arg = ''--single-part'')" "\<not> (arg = ''-m'' \<or> arg = ''--merge'')" "\<not> (arg = ''-o'' \<or> arg = ''--output'')" "\<not> (arg = ''-u'' \<or> arg = ''--username'')" "\<not> (arg = ''-p'' \<or> arg = ''--password'')" "\<not> (arg = ''-v'' \<or> arg = ''--verbose'')" "arg = ''-h'' \<or> arg = ''--help''"
    | (other) "\<not> (arg = ''-nth'' \<or> arg = ''--num-thread'')" "\<not> (arg = ''-np'' \<or> arg = ''--num-part'')" "\<not> (arg = ''-cs'' \<or> arg = ''--chunk-size'')" "\<not> (arg = ''-s'' \<or> arg = ''--single-part'')" "\<not> (arg = ''-m'' \<or> arg = ''--merge'')" "\<not> (arg = ''-o'' \<or> arg = ''--output'')" "\<not> (arg = ''-u'' \<or> arg = ''--username'')" "\<not> (arg = ''-p'' \<or> arg = ''--password'')" "\<not> (arg = ''-v'' \<or> arg = ''--verbose'')" "\<not> (arg = ''-h'' \<or> arg = ''--help'')"
    by argo
  then show ?case
  proof cases
    case nth
    show ?thesis
    proof (cases rest)
      case Nil
      with nth "2.prems"(2) show ?thesis by (subst (asm) parse_args.simps) simp
    next
      case (Cons v rest')
      have ok: "args_ok (a\<lparr>num_thread := (if abs_int (atoi v) = 0 then DEFAULT_NUM_THREADS else abs_int (atoi v))\<rparr>)"
        using "2.prems"(1) abs_int_range[of "atoi v"] abs_int_range[of "atoll v"]
        by (auto simp: args_ok_def DEFAULT_NUM_THREADS_def)
      have eq: "parse_args (arg # rest) a = parse_args rest' (a\<lparr>num_thread := (if abs_int (atoi v) = 0 then DEFAULT_NUM_THREADS else abs_int (atoi v))\<rparr>)"
        using nth Cons by (subst parse_args.simps) simp
      from "2.IH"(1)[OF nth(1-1) Cons ok] "2.prems"(2) show ?thesis
        unfolding eq by simp
    qed
  next
    case np
    show ?thesis
    proof (cases rest)
      case Nil
      with np "2.prems"(2) show ?thesis by (subst (asm) parse_args.simps) simp
    next
      case (Cons v rest')
      have ok: "args_ok (a\<lparr>num_part := (if abs_int (atoi v) = 0 then - 1 else abs_int (atoi v)), chunk_size := - 1\<rparr>)"
        using "2.prems"(1) abs_int_range[of "atoi v"] abs_int_range[of "atoll v"]
        by (auto simp: args_ok_def DEFAULT_NUM_THREADS_def)
      have eq: "parse_args (arg # rest) a = parse_args rest' (a\<lparr>num_part := (if abs_int (atoi v) = 0 then - 1 else abs_int (atoi v)), chunk_size := - 1\<rparr>)"
        using np Cons by (subst parse_args.simps) simp
      from "2.IH"(2)[OF np(1-2) Cons ok] "2.prems"(2) show ?thesis
        unfolding eq by simp
    qed
  next
    case cs
    show ?thesis
    proof (cases rest)
      case Nil
      with cs "2.prems"(2) show ?thesis by (subst (asm) parse_args.simps) simp
    next
      case (Cons v rest')
      have ok: "args_ok (a\<lparr>chunk_size := (if abs_int (atoll v) < 10 then - 1 else abs_int (atoll v)), num_part := - 1\<rparr>)"
        using "2.prems"(1) abs_int_range[of "atoi v"] abs_int_range[of "atoll v"]
        by (auto simp: args_ok_def DEFAULT_NUM_THREADS_def)
      have eq: "parse_args (arg # rest) a = parse_args rest' (a\<lparr>chunk_size := (if abs_int (atoll v) < 10 then - 1 else abs_int (atoll v)), num_part := - 1\<rparr>)"
        using cs Cons by (subst parse_args.simps) simp
      from "2.IH"(3)[OF cs(1-3) Cons ok] "2.prems"(2) show ?thesis
        unfolding eq by simp
    qed
  next
    case s
    show ?thesis
    proof (cases rest)
      case Nil
      with s "2.prems"(2) show ?thesis by (subst (asm) parse_args.simps) simp
    next
      case (Cons v rest')
      show ?thesis
      proof (cases "abs_int (atoi v) < 0")
        case True
        with s Cons "2.prems"(2) show ?thesis by (subst (asm) parse_args.simps) simp
      next
        case nonneg: False
        have ok: "args_ok (a\<lparr>mode := 1, part_index := abs_int (atoi v)\<rparr>)"
          using "2.prems"(1) abs_int_range[of "atoi v"] nonneg by (auto simp: args_ok_def)
        have eq: "parse_args (arg # rest) a =
            parse_args rest' (a\<lparr>mode := 1, part_index := abs_int (atoi v)\<rparr>)"
          using s Cons nonneg by (subst parse_args.simps) simp
        from "2.IH"(4)[OF s(1-4) Cons nonneg ok] "2.prems"(2) show ?thesis
          unfolding eq by simp
      qed
    qed
  next
    case m
    have ok: "args_ok (a\<lparr>mode := 2\<rparr>)"
      using "2.prems"(1) by (auto simp: args_ok_def)
    have eq: "parse_args (arg # rest) a = parse_args rest (a\<lparr>mode := 2\<rparr>)"
      using m by (subst parse_args.simps) simp
    from "2.IH"(5)[OF m(1-5) ok] "2.prems"(2) show ?thesis
      unfolding eq by simp
  next
    case o
    show ?thesis
    proof (cases rest)
      case Nil
      with o "2.prems"(2) show ?thesis by (subst (asm) parse_args.simps) simp
    next
      case (Cons v rest')
      have ok: "args_ok (a\<lparr>output_filename := v\<rparr>)"
        using "2.prems"(1) abs_int_range[of "atoi v"] abs_int_range[of "atoll v"]
        by (auto simp: args_ok_def DEFAULT_NUM_THREADS_def)
      have eq: "parse_args (arg # rest) a = parse_args rest' (a\<lparr>output_filename := v\<rparr>)"
        using o Cons by (subst parse_args.simps) simp
      from "2.IH"(6)[OF o(1-6) Cons ok] "2.prems"(2) show ?thesis
        unfolding eq by simp
    qed
  next
    case u
    show ?thesis
    proof (cases rest)
      case Nil
      with u "2.prems"(2) show ?thesis by (subst (asm) parse_args.simps) simp
    next
      case (Cons v rest')
      have ok: "args_ok (a\<lparr>username := v\<rparr>)"
        using "2.prems"(1) abs_int_range[of "atoi v"] abs_int_range[of "atoll v"]
        by (auto simp: args_ok_def DEFAULT_NUM_THREADS_def)
      have eq: "parse_args (arg # rest) a = parse_args rest' (a\<lparr>username := v\<rparr>)"
        using u Cons by (subst parse_args.simps) simp
      from "2.IH"(7)[OF u(1-7) Cons ok] "2.prems"(2) show ?thesis
        unfolding eq by simp
    qed
  next
    case p
    show ?thesis
    proof (cases rest)
      case Nil
      with p "2.prems"(2) show ?thesis by (subst (asm) parse_args.simps) simp
    next
      case (Cons v rest')
      have ok: "args_ok (a\<lparr>password := v\<rparr>)"
        using "2.prems"(1) abs_int_range[of "atoi v"] abs_int_range[of "atoll v"]
        by (auto simp: args_ok_def DEFAULT_NUM_THREADS_def)
      have eq: "parse_args (arg # rest) a = parse_args rest' (a\<lparr>password := v\<rparr>)"
        using p Cons by (subst parse_args.simps) simp
      from "2.IH"(8)[OF p(1-8) Cons ok] "2.prems"(2) show ?thesis
        unfolding eq by simp
    qed
  next
    case v
    have ok: "args_ok (a\<lparr>verbose := True\<rparr>)"
      using "2.prems"(1) by (auto simp: args_ok_def)
    have eq: "parse_args (arg # rest) a = parse_args rest (a\<lparr>verbose := True\<rparr>)"
      using v by (subst parse_args.simps) simp
    from "2.IH"(9)[OF v(1-9) ok] "2.prems"(2) show ?thesis
      unfolding eq by simp
  next
    case h
    with "2.prems"(2) show ?thesis by (subst (asm) parse_args.simps) simp
  next
    case other
    show ?thesis
    proof (cases "rest = []")
      case True
      have ok: "args_ok (a\<lparr>url := arg\<rparr>)"
        using "2.prems"(1) by (auto simp: args_ok_def)
      have eq: "parse_args (arg # rest) a = a\<lparr>url := arg\<rparr>"
        using other True by (subst parse_args.simps) simp
      from ok show ?thesis unfolding eq .
    next
      case False
      with other "2.prems"(2) show ?thesis by (subst (asm) parse_args.simps) simp
    qed
  qed
qed

lemma configure_ok:
  "configure argv = Inr a \<Longrightarrow> args_ok a \<and> url a \<noteq> []"
proof -
  assume c: "configure argv = Inr a"
  let ?p = "parse_args (tl argv) initial_args"
  from c have st: "start ?p" "url ?p \<noteq> []"
    by (auto simp: configure_def Let_def split: if_splits)
  from parse_args_ok[OF initial_args_ok st(1)] have ok: "args_ok ?p" .
  from c st have "a = ?p \<or> a = ?p\<lparr>output_filename := after_last_slash (url ?p)\<rparr>"
    by (auto simp: configure_def Let_def split: if_splits)
  with ok st(2) show ?thesis by (auto simp: args_ok_def)
qed

lemma cdiv_pos: "0 \<le> a \<Longrightarrow> 0 < b \<Longrightarrow> cdiv a b = a div b"
  by (cases "a = 0") (simp_all add: cdiv_def)

lemma plan_fields:
  "part_index (plan s a) = part_index a" "output_filename (plan s a) = output_filename a"
  "url (plan s a) = url a" "normal_exit (plan s a) = normal_exit a"
  "mode (plan s a) = (if s < MIN_FILE_SIZE_FOR_PARALLEL then - 1 else mode a)"
  by (simp_all add: plan_def limit_threads_def split_parts_def small_file_def Let_def)

lemma plan_small:
  assumes "0 < s" "s < MIN_FILE_SIZE_FOR_PARALLEL"
  shows "num_part (plan s a) = 1 \<and> chunk_size (plan s a) = s"
  using assms
  by (simp add: plan_def limit_threads_def split_parts_def small_file_def Let_def cdiv_pos)

lemma plan_by_count:
  assumes "MIN_FILE_SIZE_FOR_PARALLEL \<le> s" "chunk_size a = - 1"
  shows "num_part (plan s a) = (if num_part a < 0 then num_thread a else num_part a) \<and>
         chunk_size (plan s a) = cdiv s (num_part (plan s a))"
  using assms
  by (simp add: plan_def limit_threads_def split_parts_def small_file_def Let_def)

lemma plan_by_chunk:
  assumes "0 < s" "MIN_FILE_SIZE_FOR_PARALLEL \<le> s" "10 \<le> chunk_size a" "num_part a < 0"
  shows "chunk_size (plan s a) = chunk_size a * 1000000 \<and>
         num_part (plan s a) = to_int32 (s div chunk_size (plan s a) + 1)"
proof -
  let ?c = "chunk_size a * 1000000"
  have cpos: "10000000 \<le> ?c" using assms(3) by simp
  have cd: "cdiv s ?c = s div ?c" using assms(1) cpos by (intro cdiv_pos) simp_all
  from assms cd show ?thesis
    by (simp add: plan_def limit_threads_def split_parts_def small_file_def Let_def)
qed

text \<open>
  The parameters for which the planner has \<open>P \<ge> 1\<close> parts that fit \<open>[0, s - 1]\<close>: a
  size below the threshold; or no chunk size and a positive part count, given or taken
  from the thread count; or a chunk size for which \<open>s div C + 1\<close> is an \<^verbatim>\<open>int\<close>.
\<close>

lemma plan_shape:
  assumes "args_ok a" "0 < s"
    and "s < MIN_FILE_SIZE_FOR_PARALLEL \<or>
         chunk_size a = - 1 \<and> 1 \<le> (if num_part a < 0 then num_thread a else num_part a) \<or>
         10 \<le> chunk_size a \<and> s div (chunk_size a * 1000000) + 1 < 2 ^ 31"
  shows "1 \<le> num_part (plan s a) \<and> 0 \<le> chunk_size (plan s a) \<and>
         (num_part (plan s a) - 1) * chunk_size (plan s a) \<le> s"
proof -
  let ?P = "num_part (plan s a)" and ?C = "chunk_size (plan s a)"
  consider (small) "s < MIN_FILE_SIZE_FOR_PARALLEL"
    | (count) "MIN_FILE_SIZE_FOR_PARALLEL \<le> s" "chunk_size a = - 1"
        "1 \<le> (if num_part a < 0 then num_thread a else num_part a)"
    | (chunk) "MIN_FILE_SIZE_FOR_PARALLEL \<le> s" "10 \<le> chunk_size a"
        "s div (chunk_size a * 1000000) + 1 < 2 ^ 31"
    using assms(3) not_less by blast
  then show ?thesis
  proof cases
    case small
    with plan_small[OF assms(2) small, of a] assms(2) show ?thesis by simp
  next
    case count
    from plan_by_count[OF count(1,2)] count(3)
    have P: "1 \<le> ?P" and C0: "?C = cdiv s ?P" by simp_all
    from C0 P assms(2) have C: "?C = s div ?P" by (simp add: cdiv_pos)
    have "0 \<le> ?C" using C P assms(2) by (simp add: pos_imp_zdiv_nonneg_iff)
    moreover have "(?P - 1) * ?C \<le> ?P * ?C" using \<open>0 \<le> ?C\<close> by (simp add: mult_right_mono)
    moreover have "?P * ?C \<le> s" unfolding C using P
      by (metis C mult.commute mult_div_mod_eq add_increasing2 order_refl pos_mod_sign zero_less_one_class.zero_less_one less_le_trans)
    ultimately show ?thesis using P by simp
  next
    case chunk
    from assms(1) chunk(2) have np: "num_part a < 0" by (auto simp: args_ok_def)
    from plan_by_chunk[OF assms(2) chunk(1,2) np]
    have C: "?C = chunk_size a * 1000000" and P0: "?P = to_int32 (s div ?C + 1)" by blast+
    have cpos: "0 < ?C" using C chunk(2) by simp
    have "0 \<le> s div ?C" using assms(2) cpos by (simp add: pos_imp_zdiv_nonneg_iff)
    with chunk(3) have "to_int32 (s div ?C + 1) = s div ?C + 1"
      unfolding C by (intro to_int32_id) simp_all
    with P0 \<open>0 \<le> s div ?C\<close> have P: "?P = s div ?C + 1" "1 \<le> ?P" by simp_all
    have "(?P - 1) * ?C = (s div ?C) * ?C" using P by simp
    also have "\<dots> \<le> s" using cpos
      by (metis mult.commute mult_div_mod_eq add_increasing2 order_refl pos_mod_sign)
    finally show ?thesis using P cpos by simp
  qed
qed

subsection \<open>Runs of \<^verbatim>\<open>main\<close>\<close>

lemma call_download_fields [simp]:
  "r_calls (call_download net p x y r) = r_calls r @ [(p, x, y)]"
  "r_status (call_download net p x y r) = r_status r"
  "r_merged (call_download net p x y r) = r_merged r"
  "r_exit (call_download net p x y r) = r_exit r"
  by (simp_all add: call_download_def)

lemma download_part_fields [simp]:
  "r_calls (download_part net s a i r) =
     r_calls r @ [(part_name (output_filename a) i, part_first (chunk_size a) i,
                   part_last s (num_part a) (chunk_size a) i)]"
  "r_status (download_part net s a i r) = r_status r"
  "r_merged (download_part net s a i r) = r_merged r"
  "r_exit (download_part net s a i r) = r_exit r"
  by (simp_all add: download_part_def)

lemma download_all_fields:
  "r_calls (download_all net s a i r) =
     r_calls r @ map (\<lambda>j. (part_name (output_filename a) j, part_first (chunk_size a) j,
                           part_last s (num_part a) (chunk_size a) j)) [i..num_part a - 1] \<and>
   r_status (download_all net s a i r) = r_status r \<and>
   r_merged (download_all net s a i r) = r_merged r \<and>
   r_exit (download_all net s a i r) = r_exit r"
proof (induction net s a i r rule: download_all.induct)
  case (1 net s a i r)
  show ?case
  proof (cases "i < num_part a")
    case True
    with "1.IH"[OF True] show ?thesis
      by (subst (1 2 3 4) download_all.simps) (simp add: upto_rec1[of i "num_part a - 1"])
  next
    case False
    then show ?thesis by (subst (1 2 3 4) download_all.simps) simp
  qed
qed

lemma check_merge_remove_calls [simp]:
  "r_calls (check_merge_remove cc s a r) = r_calls r"
  by (simp add: check_merge_remove_def split: sum.splits prod.splits)

lemma ranges_cover:
  assumes "1 \<le> P" "0 \<le> C" "(P - 1) * C \<le> S"
  shows "(\<Union>i\<in>{0..P - 1}. {part_first C i..part_last S P C i}) = {0..S - 1}"
proof (intro set_eqI iffI)
  fix x assume "x \<in> (\<Union>i\<in>{0..P - 1}. {part_first C i..part_last S P C i})"
  then obtain i where i: "0 \<le> i" "i \<le> P - 1" "part_first C i \<le> x" "x \<le> part_last S P C i"
    by auto
  have "0 \<le> i * C" using i(1) assms(2) by simp
  with i(3) have x0: "0 \<le> x" by (simp add: part_first_def)
  have "x \<le> S - 1"
  proof (cases "i = P - 1")
    case True
    with i(4) show ?thesis by (simp add: part_last_def)
  next
    case False
    with i(2) have "i + 1 \<le> P - 1" by simp
    then have "(i + 1) * C \<le> (P - 1) * C" using assms(2) by (rule mult_right_mono)
    moreover from False i(4) have "x \<le> i * C + C - 1" by (simp add: part_last_def part_first_def)
    ultimately show ?thesis using assms(3) by (simp add: algebra_simps)
  qed
  with x0 show "x \<in> {0..S - 1}" by simp
next
  fix x assume "x \<in> {0..S - 1}"
  then have x: "0 \<le> x" "x \<le> S - 1" by simp_all
  show "x \<in> (\<Union>i\<in>{0..P - 1}. {part_first C i..part_last S P C i})"
  proof (cases "(P - 1) * C \<le> x")
    case True
    with x assms(1) have "P - 1 \<in> {0..P - 1}" "x \<in> {part_first C (P - 1)..part_last S P C (P - 1)}"
      by (simp_all add: part_first_def part_last_def)
    then show ?thesis by blast
  next
    case False
    then have lt: "x < (P - 1) * C" by simp
    have Cpos: "0 < C"
    proof (rule ccontr)
      assume "\<not> 0 < C"
      with assms(2) have "C = 0" by simp
      with lt x(1) show False by simp
    qed
    let ?i = "x div C"
    have i0: "0 \<le> ?i" using x(1) Cpos by (simp add: pos_imp_zdiv_nonneg_iff)
    have lo: "?i * C \<le> x" using Cpos
      by (metis mult.commute mult_div_mod_eq add_increasing2 order_refl pos_mod_sign)
    have hi: "x < ?i * C + C" using Cpos
      by (metis mult.commute mult_div_mod_eq add_strict_left_mono pos_mod_bound)
    have iP: "?i < P - 1"
    proof (rule ccontr)
      assume "\<not> ?i < P - 1"
      then have "P - 1 \<le> ?i" by simp
      then have "(P - 1) * C \<le> ?i * C" using assms(2) by (rule mult_right_mono)
      with lo lt show False by simp
    qed
    from i0 iP lo hi have "?i \<in> {0..P - 1}" "x \<in> {part_first C ?i..part_last S P C ?i}"
      by (simp_all add: part_first_def part_last_def)
    then show ?thesis by blast
  qed
qed

lemma ranges_disjoint:
  assumes "0 \<le> C" "0 \<le> i" "i < j" "j \<le> P - 1"
  shows "{part_first C i..part_last S P C i} \<inter> {part_first C j..part_last S P C j} = {}"
proof -
  from assms(3,4) have ne: "i \<noteq> P - 1" by simp
  from assms(3) have "i + 1 \<le> j" by simp
  then have "(i + 1) * C \<le> j * C" using assms(1) by (rule mult_right_mono)
  then have "part_last S P C i < part_first C j"
    using ne by (simp add: part_first_def part_last_def algebra_simps)
  then show ?thesis by auto
qed

lemma execute_run:
  assumes "0 < s" "part_index a0 \<le> num_part (plan s a0) - 1" "normal_exit a0"
  shows "execute s net cc d a0 =
    (let a = plan s a0;
         r0 = \<lparr>r_disk = d, r_calls = [], r_status = None, r_merged = None, r_exit = Some 0\<rparr>;
         r1 = (if mode a = - 1 then call_download net (output_filename a) 0 (s - 1) r0
               else if mode a = 0 then download_all net s a 0 r0
               else if mode a = 1 then download_part net s a (part_index a) r0
               else r0)
     in if mode a = 0 \<or> mode a = 2 then check_merge_remove cc s a r1 else r1)"
  using assms by (simp add: execute_def Let_def plan_fields)

lemma execute_stopped:
  "s \<le> 0 \<or> num_part (plan s a0) - 1 < part_index a0 \<Longrightarrow> execute s net cc d a0 = stopped d 1"
  by (auto simp add: execute_def Let_def plan_fields)

lemma main_execute:
  "configure argv = Inr a0 \<Longrightarrow>
   main argv get_file_size net cc d = execute (get_file_size (url a0)) net cc d a0"
  by (simp add: main_def)

text \<open>
  C3, as the code has it. For a run that downloads all parts (no \<^verbatim>\<open>-s\<close>, no
  \<^verbatim>\<open>-m\<close>) of a resource of size \<open>S \<ge> 1000\<close>, with a part count that is at least 1
  (given with \<^verbatim>\<open>-np\<close>, or the thread count when no part count is set), or with a
  chunk size \<open>C\<close> for which \<open>S div C + 1\<close> is below \<open>2 ^ 31\<close>: the planner fixes \<open>P \<ge> 1\<close>
  parts, from the part count (\<open>C = S div P\<close>) or from the chunk size
  (\<open>P = S div C + 1\<close>); the downloads requested are exactly those of the ranges
  \<open>[i * C, i * C + C - 1]\<close> for \<open>i < P - 1\<close> and \<open>[(P - 1) * C, S - 1]\<close>, one per index
  \<open>0 .. P - 1\<close>; as sets of byte positions the ranges are pairwise disjoint and their
  union is \<open>[0, S - 1]\<close>.
\<close>

theorem partition_complete:
  assumes "configure argv = Inr a0" and "mode a0 = 0"
    and "MIN_FILE_SIZE_FOR_PARALLEL \<le> get_file_size (url a0)"
    and "chunk_size a0 = - 1 \<and>
           1 \<le> (if num_part a0 < 0 then num_thread a0 else num_part a0) \<or>
         10 \<le> chunk_size a0 \<and>
           get_file_size (url a0) div (chunk_size a0 * 1000000) + 1 < 2 ^ 31"
  shows "let S = get_file_size (url a0); P = num_part (plan S a0); C = chunk_size (plan S a0);
             calls = r_calls (main argv get_file_size net can_create d)
         in 1 \<le> P \<and>
            (chunk_size a0 = - 1 \<longrightarrow>
               P = (if num_part a0 < 0 then num_thread a0 else num_part a0) \<and> C = S div P) \<and>
            (chunk_size a0 \<noteq> - 1 \<longrightarrow> C = chunk_size a0 * 1000000 \<and> P = S div C + 1) \<and>
            calls = map (\<lambda>i. (part_name (output_filename a0) i, i * C,
                               if i = P - 1 then S - 1 else i * C + C - 1)) [0..P - 1] \<and>
            length calls = nat P \<and>
            (\<Union>(p, x, y)\<in>set calls. {x..y}) = {0..S - 1} \<and>
            (\<forall>i j. i < j \<and> j < length calls \<longrightarrow>
               (case calls ! i of (p, x, y) \<Rightarrow> {x..y}) \<inter> (case calls ! j of (p, x, y) \<Rightarrow> {x..y}) = {})"
proof -
  define S where "S = get_file_size (url a0)"
  define P where "P = num_part (plan S a0)"
  define C where "C = chunk_size (plan S a0)"
  define calls where "calls = r_calls (main argv get_file_size net can_create d)"
  define g where "g = (\<lambda>i. (part_name (output_filename a0) i, i * C,
                               if i = P - 1 then S - 1 else i * C + C - 1))"
  from configure_ok[OF assms(1)] have ok: "args_ok a0" by simp
  have S: "0 < S" "MIN_FILE_SIZE_FOR_PARALLEL \<le> S"
    using assms(3) by (simp_all add: S_def MIN_FILE_SIZE_FOR_PARALLEL_def)
  have valid: "chunk_size a0 = - 1 \<and>
           1 \<le> (if num_part a0 < 0 then num_thread a0 else num_part a0) \<or>
         10 \<le> chunk_size a0 \<and> S div (chunk_size a0 * 1000000) + 1 < 2 ^ 31"
    using assms(4) by (simp add: S_def)
  then have "S < MIN_FILE_SIZE_FOR_PARALLEL \<or>
         chunk_size a0 = - 1 \<and>
           1 \<le> (if num_part a0 < 0 then num_thread a0 else num_part a0) \<or>
         10 \<le> chunk_size a0 \<and> S div (chunk_size a0 * 1000000) + 1 < 2 ^ 31"
    by blast
  from plan_shape[OF ok S(1) this] have sh: "1 \<le> P" "0 \<le> C" "(P - 1) * C \<le> S"
    by (simp_all add: P_def C_def)
  from ok assms(2) have idx: "part_index a0 = - 1" "normal_exit a0" by (auto simp: args_ok_def)
  have m0: "mode (plan S a0) = 0" using S(2) assms(2) by (simp add: plan_fields)
  have "main argv get_file_size net can_create d =
      check_merge_remove can_create S (plan S a0)
        (download_all net S (plan S a0) 0
           \<lparr>r_disk = d, r_calls = [], r_status = None, r_merged = None, r_exit = Some 0\<rparr>)"
    using execute_run[of S a0 net can_create d] S(1) idx sh(1) m0
    by (simp add: main_execute[OF assms(1)] S_def[symmetric] P_def Let_def)
  then have calls: "calls = map g [0..P - 1]"
    by (simp add: calls_def download_all_fields g_def plan_fields P_def C_def part_first_def
        part_last_def)
  have c1: "chunk_size a0 = - 1 \<longrightarrow>
               P = (if num_part a0 < 0 then num_thread a0 else num_part a0) \<and> C = S div P"
  proof
    assume c: "chunk_size a0 = - 1"
    from plan_by_count[OF S(2) c]
    have "P = (if num_part a0 < 0 then num_thread a0 else num_part a0)" "C = cdiv S P"
      by (simp_all add: P_def C_def)
    with sh(1) S(1)
    show "P = (if num_part a0 < 0 then num_thread a0 else num_part a0) \<and> C = S div P"
      by (simp add: cdiv_pos)
  qed
  have c2: "chunk_size a0 \<noteq> - 1 \<longrightarrow> C = chunk_size a0 * 1000000 \<and> P = S div C + 1"
  proof
    assume "chunk_size a0 \<noteq> - 1"
    with valid have v: "10 \<le> chunk_size a0" "S div (chunk_size a0 * 1000000) + 1 < 2 ^ 31"
      by auto
    from ok v(1) have np: "num_part a0 < 0" by (auto simp: args_ok_def)
    from plan_by_chunk[OF S(1,2) v(1) np]
    have C: "C = chunk_size a0 * 1000000" and P0: "P = to_int32 (S div C + 1)"
      by (simp_all add: P_def C_def)
    have "0 \<le> S div C" using S(1) v(1) unfolding C by (simp add: pos_imp_zdiv_nonneg_iff)
    with v(2) have "to_int32 (S div C + 1) = S div C + 1"
      unfolding C by (intro to_int32_id) simp_all
    with C P0 show "C = chunk_size a0 * 1000000 \<and> P = S div C + 1" by simp
  qed
  have len: "length calls = nat P" using sh(1) by (simp add: calls)
  have "(\<Union>(p, x, y)\<in>set calls. {x..y}) = (\<Union>i\<in>{0..P - 1}. {part_first C i..part_last S P C i})"
    by (simp add: calls g_def part_first_def part_last_def cong: if_cong)
  also have "\<dots> = {0..S - 1}" using sh by (rule ranges_cover)
  finally have cover: "(\<Union>(p, x, y)\<in>set calls. {x..y}) = {0..S - 1}" .
  have disj: "\<forall>i j. i < j \<and> j < length calls \<longrightarrow>
               (case calls ! i of (p, x, y) \<Rightarrow> {x..y}) \<inter> (case calls ! j of (p, x, y) \<Rightarrow> {x..y}) = {}"
  proof (intro allI impI)
    fix i j :: nat assume ij: "i < j \<and> j < length calls"
    with len sh(1) have b: "int i < int j" "int j \<le> P - 1" "0 \<le> int i" by auto
    have "[0..P - 1] ! i = int i" "[0..P - 1] ! j = int j"
      using b nth_upto[of 0 i "P - 1"] nth_upto[of 0 j "P - 1"] by simp_all
    then have ni: "calls ! i = g (int i)" and nj: "calls ! j = g (int j)"
      using ij len by (simp_all add: calls)
    have gf: "(case g k of (p, x, y) \<Rightarrow> {x..y}) = {part_first C k..part_last S P C k}" for k
      by (simp add: g_def part_first_def part_last_def)
    from ranges_disjoint[OF sh(2) b(3) b(1) b(2), of S]
    show "(case calls ! i of (p, x, y) \<Rightarrow> {x..y}) \<inter> (case calls ! j of (p, x, y) \<Rightarrow> {x..y}) = {}"
      by (simp only: ni nj gf)
  qed
  from sh(1) c1 c2 calls len cover disj show ?thesis
    unfolding Let_def S_def[symmetric] P_def[symmetric] C_def[symmetric] calls_def[symmetric] g_def
    by blast
qed

text \<open>The plan of \<^verbatim>\<open>co-curl -np 3 http://h/f\<close> for a resource of 3000 bytes.\<close>

theorem partition_complete_witness:
  "let calls = r_calls (main [''co-curl'', ''-np'', ''3'', ''http://h/f''] (\<lambda>u. 3000)
                  (\<lambda>p x y. None) (\<lambda>p. True) Map.empty)
   in calls = [(''f.part0'', 0, 999), (''f.part1'', 1000, 1999), (''f.part2'', 2000, 2999)] \<and>
      length calls = 3 \<and> (\<Union>(p, x, y)\<in>set calls. {x..y}) = {0..2999}"
proof -
  let ?argv = "[''co-curl'', ''-np'', ''3'', ''http://h/f'']"
  let ?a0 = "\<lparr>num_thread = 8, num_part = 3, chunk_size = - 1, mode = 0, part_index = - 1,
      username = [], password = [], url = ''http://h/f'', output_filename = ''f'',
      verbose = False, start = True, normal_exit = True\<rparr>"
  let ?size = "\<lambda>u::string. 3000::int"
  let ?calls = "r_calls (main ?argv ?size (\<lambda>p x y. None) (\<lambda>p. True) Map.empty)"
  have c: "configure ?argv = Inr ?a0" by code_simp
  have m: "mode ?a0 = 0" by simp
  have s1: "MIN_FILE_SIZE_FOR_PARALLEL \<le> ?size (url ?a0)"
    by (simp add: MIN_FILE_SIZE_FOR_PARALLEL_def)
  have s2: "chunk_size ?a0 = - 1 \<and>
        1 \<le> (if num_part ?a0 < 0 then num_thread ?a0 else num_part ?a0) \<or>
      10 \<le> chunk_size ?a0 \<and> ?size (url ?a0) div (chunk_size ?a0 * 1000000) + 1 < 2 ^ 31"
    by simp
  have pl: "num_part (plan 3000 ?a0) = 3" "chunk_size (plan 3000 ?a0) = 1000"
    by (simp_all add: plan_def limit_threads_def split_parts_def small_file_def Let_def cdiv_def
        MIN_FILE_SIZE_FOR_PARALLEL_def)
  have u: "[0..2] = [0, 1, 2::int]" by (simp add: upto_rec1)
  note t = partition_complete[OF c m s1 s2, of "\<lambda>p x y. None" "\<lambda>p. True" Map.empty,
      unfolded Let_def]
  from t have "?calls = map (\<lambda>i. (part_name (output_filename ?a0) i, i * chunk_size (plan (?size (url ?a0)) ?a0),
        if i = num_part (plan (?size (url ?a0)) ?a0) - 1 then ?size (url ?a0) - 1
        else i * chunk_size (plan (?size (url ?a0)) ?a0) + chunk_size (plan (?size (url ?a0)) ?a0) - 1))
      [0..num_part (plan (?size (url ?a0)) ?a0) - 1]"
    by (elim conjE)
  then have w1: "?calls = [(''f.part0'', 0, 999), (''f.part1'', 1000, 1999), (''f.part2'', 2000, 2999)]"
    by (simp add: pl u cong: if_cong)
  from t have "length ?calls = nat (num_part (plan (?size (url ?a0)) ?a0))" by (elim conjE)
  then have w2: "length ?calls = 3" by (simp add: pl)
  from t have "(\<Union>(p, x, y)\<in>set ?calls. {x..y}) = {0..?size (url ?a0) - 1}" by (elim conjE)
  then have w3: "(\<Union>(p, x, y)\<in>set ?calls. {x..y}) = {0..2999}" by simp
  from w1 w2 w3 show ?thesis unfolding Let_def by blast
qed

text \<open>
  C3 as the claim has it: for every size \<open>S \<ge> 1000\<close> and every chunk size the planner
  produces \<open>P = S div C + 1\<close> parts that cover \<open>[0, S - 1]\<close>. The part count is an
  \<^verbatim>\<open>int\<close>: for a chunk size of 10 MB and a resource of 21474836480000000 bytes
  \<open>S div C + 1\<close> is \<open>2 ^ 31 + 1\<close>, the part count that the planner stores is
  \<open>- 2147483647\<close>, and the run makes no download.
\<close>

theorem part_count_beyond_int:
  "(21474836480000000::int) div (10 * 1000000) + 1 = 2147483649 \<and>
   num_part (plan 21474836480000000
      \<lparr>num_thread = 8, num_part = - 1, chunk_size = 10, mode = 0, part_index = - 1,
       username = [], password = [], url = ''http://h/f'', output_filename = ''f'',
       verbose = False, start = True, normal_exit = True\<rparr>) = - 2147483647 \<and>
   (let r = main [''co-curl'', ''-cs'', ''10'', ''http://h/f''] (\<lambda>u. 21474836480000000)
              (\<lambda>p x y. Some (\<lambda>i. Performed (Some 206) ''data'')) (\<lambda>p. True) Map.empty
    in r_calls r = [] \<and> r_exit r = Some 1)"
  by code_simp

subsection \<open>Cleaning up\<close>

lemma remove_parts_None:
  "d q = None \<Longrightarrow> remove_parts f parts i d q = None"
proof (induction f parts i d rule: remove_parts.induct)
  case (1 f parts i d)
  show ?case
  proof (cases "i < parts")
    case True
    have "remove_file d (part_name f i) q = None"
      using "1.prems" by (simp add: remove_file_def)
    from "1.IH"[OF True this] True show ?thesis
      by (subst remove_parts.simps) simp
  next
    case False
    with "1.prems" show ?thesis by (subst remove_parts.simps) simp
  qed
qed

lemma remove_parts_removed:
  "i0 \<le> i \<Longrightarrow> i < parts \<Longrightarrow> remove_parts f parts i0 d (part_name f i) = None"
proof (induction f parts i0 d rule: remove_parts.induct)
  case (1 f parts i0 d)
  from "1.prems" have lt: "i0 < parts" by simp
  show ?case
  proof (cases "i0 = i")
    case True
    have "remove_file d (part_name f i) (part_name f i) = None" by (simp add: remove_file_def)
    then have "remove_parts f parts (i + 1) (remove_file d (part_name f i)) (part_name f i) = None"
      by (rule remove_parts_None)
    with lt True show ?thesis by (subst remove_parts.simps) simp
  next
    case False
    with "1.prems" have "i0 + 1 \<le> i" by simp
    from "1.IH"[OF lt this "1.prems"(2)] lt show ?thesis
      by (subst remove_parts.simps) simp
  qed
qed

lemma check_files_present:
  assumes "check_files d f parts c l = Inr v" "0 \<le> i" "i < parts"
  shows "d (part_name f i) \<noteq> None"
proof
  assume "d (part_name f i) = None"
  from check_files_absent[of i parts d f c l] this assms show False by auto
qed

lemma check_merge_remove_cleanup:
  assumes "r_merged r = None"
  shows "(r_status (check_merge_remove cc s a r) = Some (Inr 1) \<and>
          r_merged (check_merge_remove cc s a r) = Some True \<longrightarrow>
            (\<forall>i. 0 \<le> i \<and> i < num_part a \<longrightarrow>
               r_disk (check_merge_remove cc s a r) (part_name (output_filename a) i) = None)) \<and>
         (r_status (check_merge_remove cc s a r) = Some (Inr (- 1)) \<and>
          r_merged (check_merge_remove cc s a r) = Some True \<longrightarrow>
            (\<forall>i. 0 \<le> i \<and> i < num_part a \<longrightarrow>
               r_disk r (part_name (output_filename a) i) \<noteq> None \<and>
               r_disk (check_merge_remove cc s a r) (part_name (output_filename a) i) =
                 r_disk r (part_name (output_filename a) i))) \<and>
         (r_merged (check_merge_remove cc s a r) = Some False \<longrightarrow>
            r_disk (check_merge_remove cc s a r) (output_filename a) = None \<and>
            (\<forall>i. 0 \<le> i \<and> i < num_part a \<longrightarrow>
               r_disk r (part_name (output_filename a) i) \<noteq> None \<and>
               r_disk (check_merge_remove cc s a r) (part_name (output_filename a) i) =
                 r_disk r (part_name (output_filename a) i)))"
proof (cases "check_files (r_disk r) (output_filename a) (num_part a) (to_uintmax (chunk_size a))
             (to_uintmax (s - (num_part a - 1) * chunk_size a))")
  case (Inl e)
  with assms show ?thesis by (simp add: check_merge_remove_def)
next
  case (Inr v)
  note present = check_files_present[OF Inr]
  show ?thesis
  proof (cases "v = 0")
    case True
    with Inr assms show ?thesis by (simp add: check_merge_remove_def)
  next
    case False
    obtain ok ms where m: "merge_files cc (r_disk r) (output_filename a) (num_part a) = (ok, ms)"
      by (cases "merge_files cc (r_disk r) (output_filename a) (num_part a)")
    have other: "m_disk ms (part_name (output_filename a) i) = r_disk r (part_name (output_filename a) i)" for i
      using merge_files_other[of "part_name (output_filename a) i" "output_filename a" cc "r_disk r" "num_part a"]
      by (simp add: m)
    show ?thesis
    proof (cases ok)
      case True
      with Inr False m other present show ?thesis
        by (auto simp add: check_merge_remove_def remove_parts_removed)
    next
      case no: False
      with Inr False m other present show ?thesis
        by (auto simp add: check_merge_remove_def remove_file_def)
    qed
  qed
qed

lemma execute_phases:
  "execute s net cc d a0 = stopped d 1 \<or>
   (\<exists>r1. r_merged r1 = None \<and> r_status r1 = None \<and>
      (execute s net cc d a0 = r1 \<or>
       execute s net cc d a0 = check_merge_remove cc s (plan s a0) r1))"
proof (cases "s \<le> 0 \<or> num_part (plan s a0) - 1 < part_index a0 \<or> \<not> normal_exit a0")
  case True
  then have "execute s net cc d a0 = stopped d 1"
    by (auto simp add: execute_def Let_def plan_fields)
  then show ?thesis by simp
next
  case False
  let ?a = "plan s a0"
  let ?r0 = "\<lparr>r_disk = d, r_calls = [], r_status = None, r_merged = None, r_exit = Some 0\<rparr>"
  let ?r1 = "if mode ?a = - 1 then call_download net (output_filename ?a) 0 (s - 1) ?r0
               else if mode ?a = 0 then download_all net s ?a 0 ?r0
               else if mode ?a = 1 then download_part net s ?a (part_index ?a) ?r0
               else ?r0"
  have "r_merged ?r1 = None \<and> r_status ?r1 = None"
    by (simp add: download_all_fields)
  moreover have "execute s net cc d a0 = ?r1 \<or> execute s net cc d a0 = check_merge_remove cc s ?a ?r1"
    using False execute_run[of s a0 net cc d] by (simp add: Let_def)
  ultimately show ?thesis by blast
qed

text \<open>
  C6. In every run of \<open>main\<close>: when \<^verbatim>\<open>check_files\<close> returned 1 and
  \<^verbatim>\<open>merge_files\<close> succeeded, none of the part files \<open>0 .. P - 1\<close> exists at the end;
  when \<^verbatim>\<open>check_files\<close> returned \<open>- 1\<close> and \<^verbatim>\<open>merge_files\<close> succeeded, all of
  them exist; when \<^verbatim>\<open>merge_files\<close> failed, the destination does not exist and all
  part files exist.
\<close>

theorem cleanup_correct:
  assumes "configure argv = Inr a0"
  shows "let a = plan (get_file_size (url a0)) a0; f = output_filename a; P = num_part a;
             r = main argv get_file_size net can_create d
         in (r_status r = Some (Inr 1) \<and> r_merged r = Some True \<longrightarrow>
               (\<forall>i. 0 \<le> i \<and> i < P \<longrightarrow> r_disk r (part_name f i) = None)) \<and>
            (r_status r = Some (Inr (- 1)) \<and> r_merged r = Some True \<longrightarrow>
               (\<forall>i. 0 \<le> i \<and> i < P \<longrightarrow> r_disk r (part_name f i) \<noteq> None)) \<and>
            (r_merged r = Some False \<longrightarrow>
               r_disk r f = None \<and> (\<forall>i. 0 \<le> i \<and> i < P \<longrightarrow> r_disk r (part_name f i) \<noteq> None))"
proof -
  let ?s = "get_file_size (url a0)"
  let ?r = "main argv get_file_size net can_create d"
  have r: "?r = execute ?s net can_create d a0" using assms by (rule main_execute)
  from execute_phases[of ?s net can_create d a0]
  consider (stop) "?r = stopped d 1"
    | (plain) r1 where "r_merged r1 = None" "r_status r1 = None" "?r = r1"
    | (block) r1 where "r_merged r1 = None" "r_status r1 = None"
        "?r = check_merge_remove can_create ?s (plan ?s a0) r1"
    unfolding r by blast
  then show ?thesis
  proof cases
    case stop
    then show ?thesis by (simp add: stopped_def Let_def)
  next
    case plain
    then show ?thesis by (simp add: Let_def)
  next
    case block
    from check_merge_remove_cleanup[OF block(1), of can_create ?s "plan ?s a0"]
    show ?thesis unfolding Let_def block(3) by auto
  qed
qed

text \<open>Three merge-only runs on two parts: all sizes plausible; both parts more than
  1 MB short; a destination that cannot be created.\<close>

theorem cleanup_correct_witness:
  "(let r = main [''co-curl'', ''-m'', ''-np'', ''2'', ''http://h/f''] (\<lambda>u. 2000)
              (\<lambda>p x y. None) (\<lambda>p. True) [''f.part0'' \<mapsto> ''ab'', ''f.part1'' \<mapsto> ''cd'']
    in r_status r = Some (Inr 1) \<and> r_merged r = Some True \<and>
       r_disk r ''f.part0'' = None \<and> r_disk r ''f.part1'' = None) \<and>
   (let r = main [''co-curl'', ''-m'', ''-np'', ''2'', ''http://h/f''] (\<lambda>u. 4000000)
              (\<lambda>p x y. None) (\<lambda>p. True) [''f.part0'' \<mapsto> ''ab'', ''f.part1'' \<mapsto> ''cd'']
    in r_status r = Some (Inr (- 1)) \<and> r_merged r = Some True \<and>
       r_disk r ''f.part0'' \<noteq> None \<and> r_disk r ''f.part1'' \<noteq> None) \<and>
   (let r = main [''co-curl'', ''-m'', ''-np'', ''2'', ''http://h/f''] (\<lambda>u. 2000)
              (\<lambda>p x y. None) (\<lambda>p. False)
              [''f.part0'' \<mapsto> ''ab'', ''f.part1'' \<mapsto> ''cd'', ''f'' \<mapsto> ''old'']
    in r_merged r = Some False \<and> r_disk r ''f'' = None \<and>
       r_disk r ''f.part0'' \<noteq> None \<and> r_disk r ''f.part1'' \<noteq> None)"
proof -
  let ?argv = "[''co-curl'', ''-m'', ''-np'', ''2'', ''http://h/f'']"
  let ?a0 = "\<lparr>num_thread = 8, num_part = 2, chunk_size = - 1, mode = 2, part_index = - 1,
      username = [], password = [], url = ''http://h/f'', output_filename = ''f'',
      verbose = False, start = True, normal_exit = True\<rparr>"
  let ?net = "\<lambda>(p::path) (x::int) (y::int). None :: (nat \<Rightarrow> attempt) option"
  let ?yes = "\<lambda>p::path. True" and ?no = "\<lambda>p::path. False"
  let ?d1 = "[''f.part0'' \<mapsto> ''ab'', ''f.part1'' \<mapsto> ''cd'']"
  let ?d3 = "[''f.part0'' \<mapsto> ''ab'', ''f.part1'' \<mapsto> ''cd'', ''f'' \<mapsto> ''old'']"
  let ?r1 = "main ?argv (\<lambda>u. 2000) ?net ?yes ?d1"
  let ?r2 = "main ?argv (\<lambda>u. 4000000) ?net ?yes ?d1"
  let ?r3 = "main ?argv (\<lambda>u. 2000) ?net ?no ?d3"
  have c: "configure ?argv = Inr ?a0" by code_simp
  have pl: "num_part (plan 2000 ?a0) = 2" "num_part (plan 4000000 ?a0) = 2"
    "output_filename (plan 2000 ?a0) = ''f''" "output_filename (plan 4000000 ?a0) = ''f''"
    by (simp_all add: plan_def limit_threads_def split_parts_def small_file_def Let_def cdiv_def
        MIN_FILE_SIZE_FOR_PARALLEL_def)
  have i0: "(0::int) \<le> 0 \<and> (0::int) < 2" and i1: "(0::int) \<le> 1 \<and> (1::int) < 2" by simp_all
  have h1: "r_status ?r1 = Some (Inr 1) \<and> r_merged ?r1 = Some True" by code_simp
  have h2: "r_status ?r2 = Some (Inr (- 1)) \<and> r_merged ?r2 = Some True" by code_simp
  have h3: "r_merged ?r3 = Some False" by code_simp
  note t1 = cleanup_correct[OF c, of "\<lambda>u. 2000" ?net ?yes ?d1, unfolded Let_def]
  note t2 = cleanup_correct[OF c, of "\<lambda>u. 4000000" ?net ?yes ?d1, unfolded Let_def]
  note t3 = cleanup_correct[OF c, of "\<lambda>u. 2000" ?net ?no ?d3, unfolded Let_def]
  from t1 h1 have a1: "\<forall>i. 0 \<le> i \<and> i < 2 \<longrightarrow> r_disk ?r1 (part_name ''f'' i) = None"
    by (simp add: pl)
  from a1[rule_format, OF i0] a1[rule_format, OF i1]
  have w1: "r_disk ?r1 ''f.part0'' = None \<and> r_disk ?r1 ''f.part1'' = None" by simp
  from t2 h2 have a2: "\<forall>i. 0 \<le> i \<and> i < 2 \<longrightarrow> r_disk ?r2 (part_name ''f'' i) \<noteq> None"
    by (simp add: pl)
  from a2[rule_format, OF i0] a2[rule_format, OF i1]
  have w2: "r_disk ?r2 ''f.part0'' \<noteq> None \<and> r_disk ?r2 ''f.part1'' \<noteq> None" by simp
  from t3 h3 have a3: "r_disk ?r3 ''f'' = None \<and>
      (\<forall>i. 0 \<le> i \<and> i < 2 \<longrightarrow> r_disk ?r3 (part_name ''f'' i) \<noteq> None)"
    by (simp add: pl)
  from a3[THEN conjunct2, rule_format, OF i0] a3[THEN conjunct2, rule_format, OF i1] a3
  have w3: "r_disk ?r3 ''f'' = None \<and> r_disk ?r3 ''f.part0'' \<noteq> None \<and> r_disk ?r3 ''f.part1'' \<noteq> None"
    by simp
  from h1 h2 h3 w1 w2 w3 show ?thesis unfolding Let_def by blast
qed

subsection \<open>The modes of \<^verbatim>\<open>main\<close>\<close>

text \<open>
  C7, as the code has it. \<open>main\<close> calls \<^verbatim>\<open>get_file_size\<close> before it looks at the
  mode. A run with \<^verbatim>\<open>-m\<close> whose probe fails stops with exit code 1 and has touched
  nothing. A run with \<^verbatim>\<open>-m\<close> whose probe reports at least 1000 bytes (and whose
  part index, if one was given before \<^verbatim>\<open>-m\<close>, is in range) calls \<^verbatim>\<open>download\<close>
  never and is exactly the block ``Check, Merge, Remove'' on the disk as it was, with
  the part count and the expected sizes that the planner computes from the probed size.
\<close>

theorem merge_only_contract:
  assumes "configure argv = Inr a0" and "mode a0 = 2"
  shows "let S = get_file_size (url a0); a = plan S a0;
             r = main argv get_file_size net can_create d
         in (S \<le> 0 \<longrightarrow> r = stopped d 1) \<and>
            (MIN_FILE_SIZE_FOR_PARALLEL \<le> S \<and> part_index a0 \<le> num_part a - 1 \<longrightarrow>
               r_calls r = [] \<and>
               r = check_merge_remove can_create S a
                     \<lparr>r_disk = d, r_calls = [], r_status = None, r_merged = None,
                        r_exit = Some 0\<rparr>)"
proof -
  let ?S = "get_file_size (url a0)"
  have r: "main argv get_file_size net can_create d = execute ?S net can_create d a0"
    using assms(1) by (rule main_execute)
  from configure_ok[OF assms(1)] have ne: "normal_exit a0" by (simp add: args_ok_def)
  have 1: "?S \<le> 0 \<longrightarrow> execute ?S net can_create d a0 = stopped d 1"
    by (simp add: execute_stopped)
  have 2: "execute ?S net can_create d a0 =
        check_merge_remove can_create ?S (plan ?S a0)
          \<lparr>r_disk = d, r_calls = [], r_status = None, r_merged = None, r_exit = Some 0\<rparr>"
    if "MIN_FILE_SIZE_FOR_PARALLEL \<le> ?S" "part_index a0 \<le> num_part (plan ?S a0) - 1"
  proof -
    from that(1) have pos: "0 < ?S" by (simp add: MIN_FILE_SIZE_FOR_PARALLEL_def)
    from that(1) assms(2) have m: "mode (plan ?S a0) = 2" by (simp add: plan_fields)
    from execute_run[OF pos that(2) ne, of net can_create d] m show ?thesis
      by (simp add: Let_def)
  qed
  from 1 2 show ?thesis unfolding Let_def r by simp
qed

text \<open>Both cases on two parts: a failed probe, and a probed size of 2000.\<close>

theorem merge_only_contract_witness:
  "main [''co-curl'', ''-m'', ''-np'', ''2'', ''http://h/f''] (\<lambda>u. - 1) (\<lambda>p x y. None)
      (\<lambda>p. True) [''f.part0'' \<mapsto> ''ab'', ''f.part1'' \<mapsto> ''cd'']
     = stopped [''f.part0'' \<mapsto> ''ab'', ''f.part1'' \<mapsto> ''cd''] 1 \<and>
   (let r = main [''co-curl'', ''-m'', ''-np'', ''2'', ''http://h/f''] (\<lambda>u. 2000)
              (\<lambda>p x y. None) (\<lambda>p. True) [''f.part0'' \<mapsto> ''ab'', ''f.part1'' \<mapsto> ''cd'']
    in r_calls r = [] \<and>
       r = check_merge_remove (\<lambda>p. True) 2000
             (plan 2000 \<lparr>num_thread = 8, num_part = 2, chunk_size = - 1, mode = 2,
                  part_index = - 1, username = [], password = [], url = ''http://h/f'',
                  output_filename = ''f'', verbose = False, start = True, normal_exit = True\<rparr>)
             \<lparr>r_disk = [''f.part0'' \<mapsto> ''ab'', ''f.part1'' \<mapsto> ''cd''], r_calls = [],
                r_status = None, r_merged = None, r_exit = Some 0\<rparr>)"
proof -
  let ?argv = "[''co-curl'', ''-m'', ''-np'', ''2'', ''http://h/f'']"
  let ?a0 = "\<lparr>num_thread = 8, num_part = 2, chunk_size = - 1, mode = 2, part_index = - 1,
      username = [], password = [], url = ''http://h/f'', output_filename = ''f'',
      verbose = False, start = True, normal_exit = True\<rparr>"
  let ?net = "\<lambda>(p::path) (x::int) (y::int). None :: (nat \<Rightarrow> attempt) option"
  let ?yes = "\<lambda>p::path. True"
  let ?d = "[''f.part0'' \<mapsto> ''ab'', ''f.part1'' \<mapsto> ''cd'']"
  have c: "configure ?argv = Inr ?a0" by code_simp
  have m: "mode ?a0 = 2" by simp
  have pl: "num_part (plan 2000 ?a0) = 2"
    by (simp_all add: plan_def limit_threads_def split_parts_def small_file_def Let_def cdiv_def
        MIN_FILE_SIZE_FOR_PARALLEL_def)
  note t1 = merge_only_contract[OF c m, of "\<lambda>u. - 1" ?net ?yes ?d, unfolded Let_def]
  note t2 = merge_only_contract[OF c m, of "\<lambda>u. 2000" ?net ?yes ?d, unfolded Let_def]
  from t1 have w1: "main ?argv (\<lambda>u. - 1) ?net ?yes ?d = stopped ?d 1" by simp
  have h: "MIN_FILE_SIZE_FOR_PARALLEL \<le> (\<lambda>u::string. 2000::int) (url ?a0) \<and>
      part_index ?a0 \<le> num_part (plan ((\<lambda>u::string. 2000::int) (url ?a0)) ?a0) - 1"
    by (simp add: pl MIN_FILE_SIZE_FOR_PARALLEL_def)
  from t2 h have w2: "r_calls (main ?argv (\<lambda>u. 2000) ?net ?yes ?d) = [] \<and>
      main ?argv (\<lambda>u. 2000) ?net ?yes ?d =
        check_merge_remove ?yes 2000 (plan 2000 ?a0)
          \<lparr>r_disk = ?d, r_calls = [], r_status = None, r_merged = None, r_exit = Some 0\<rparr>"
    by simp
  from w1 w2 show ?thesis unfolding Let_def by blast
qed

text \<open>
  C7 as the claim has it: a merge-only run skips the probe and every download, and its
  outcome does not depend on the probe. Three runs with \<^verbatim>\<open>-m\<close> on the same disk: the
  probe fails, and the run exits with 1 without checking or merging; the probe reports
  2000, and the run merges; the probe reports 500, and the run downloads the whole
  resource instead of merging.
\<close>

theorem merge_only_depends_on_probe:
  "(let r = main [''co-curl'', ''-m'', ''-np'', ''2'', ''http://h/f''] (\<lambda>u. - 1)
              (\<lambda>p x y. None) (\<lambda>p. True) [''f.part0'' \<mapsto> ''ab'', ''f.part1'' \<mapsto> ''cd'']
    in r_status r = None \<and> r_merged r = None \<and> r_exit r = Some 1 \<and> r_disk r ''f'' = None) \<and>
   (let r = main [''co-curl'', ''-m'', ''-np'', ''2'', ''http://h/f''] (\<lambda>u. 2000)
              (\<lambda>p x y. None) (\<lambda>p. True) [''f.part0'' \<mapsto> ''ab'', ''f.part1'' \<mapsto> ''cd'']
    in r_status r = Some (Inr 1) \<and> r_merged r = Some True \<and> r_exit r = Some 0 \<and>
       r_disk r ''f'' = Some ''abcd'') \<and>
   (let r = main [''co-curl'', ''-m'', ''-np'', ''2'', ''http://h/f''] (\<lambda>u. 500)
              (\<lambda>p x y. Some (\<lambda>i. Performed (Some 200) ''whole''))
              (\<lambda>p. True) [''f.part0'' \<mapsto> ''ab'', ''f.part1'' \<mapsto> ''cd'']
    in r_calls r = [(''f'', 0, 499)] \<and> r_status r = None \<and> r_merged r = None \<and>
       r_disk r ''f'' = Some ''whole'')"
  by code_simp






text \<open>
  C9, as the code has it. For a probed size \<open>1 \<le> S < 1000\<close> the planner sets the mode to
  \<open>- 1\<close>, one part, and a chunk size of \<open>S\<close>, whatever the options were; the range of
  that part is \<open>[0, S - 1]\<close>. The run then calls \<^verbatim>\<open>download\<close> once, for
  \<open>[0, S - 1]\<close> into the output file, and neither checks nor merges, unless a part index
  above 0 was given with \<^verbatim>\<open>-s\<close>: the test of the index against the part count
  comes first and ends the run with exit code 1.
\<close>

theorem small_file_single_range:
  assumes "configure argv = Inr a0"
    and "1 \<le> get_file_size (url a0)" and "get_file_size (url a0) < MIN_FILE_SIZE_FOR_PARALLEL"
  shows "let S = get_file_size (url a0); a = plan S a0;
             r = main argv get_file_size net can_create d
         in mode a = - 1 \<and> num_part a = 1 \<and> chunk_size a = S \<and>
            part_first (chunk_size a) 0 = 0 \<and> part_last S (num_part a) (chunk_size a) 0 = S - 1 \<and>
            (part_index a0 \<le> 0 \<longrightarrow>
               r_calls r = [(output_filename a0, 0, S - 1)] \<and>
               r_status r = None \<and> r_merged r = None \<and> r_exit r = Some 0) \<and>
            (0 < part_index a0 \<longrightarrow> r = stopped d 1)"
proof -
  let ?S = "get_file_size (url a0)"
  let ?a = "plan ?S a0"
  from assms(2) have pos: "0 < ?S" by simp
  from configure_ok[OF assms(1)] have ne: "normal_exit a0" by (simp add: args_ok_def)
  from plan_small[OF pos assms(3), of a0] have pl: "num_part ?a = 1" "chunk_size ?a = ?S"
    by simp_all
  have md: "mode ?a = - 1" using assms(3) by (simp add: plan_fields)
  have rg: "part_first (chunk_size ?a) 0 = 0" "part_last ?S (num_part ?a) (chunk_size ?a) 0 = ?S - 1"
    by (simp_all add: pl part_first_def part_last_def)
  have 1: "r_calls (main argv get_file_size net can_create d) = [(output_filename a0, 0, ?S - 1)] \<and>
        r_status (main argv get_file_size net can_create d) = None \<and>
        r_merged (main argv get_file_size net can_create d) = None \<and>
        r_exit (main argv get_file_size net can_create d) = Some 0"
    if "part_index a0 \<le> 0"
  proof -
    from that have "part_index a0 \<le> num_part ?a - 1" by (simp add: pl)
    from execute_run[OF pos this ne, of net can_create d] md show ?thesis
      by (simp add: main_execute[OF assms(1)] Let_def plan_fields)
  qed
  have 2: "main argv get_file_size net can_create d = stopped d 1" if "0 < part_index a0"
    using that by (simp add: main_execute[OF assms(1)] execute_stopped pl)
  from md pl rg 1 2 show ?thesis unfolding Let_def by blast
qed

text \<open>A resource of 500 bytes, with \<^verbatim>\<open>-np 4\<close> and with \<^verbatim>\<open>-s 2\<close>.\<close>

theorem small_file_single_range_witness:
  "(let r = main [''co-curl'', ''-np'', ''4'', ''http://h/f''] (\<lambda>u. 500)
              (\<lambda>p x y. None) (\<lambda>p. True) Map.empty
    in r_calls r = [(''f'', 0, 499)] \<and> r_status r = None \<and> r_merged r = None \<and>
       r_exit r = Some 0) \<and>
   main [''co-curl'', ''-s'', ''2'', ''http://h/f''] (\<lambda>u. 500) (\<lambda>p x y. None) (\<lambda>p. True)
     Map.empty = stopped Map.empty 1"
proof -
  let ?argv1 = "[''co-curl'', ''-np'', ''4'', ''http://h/f'']"
  let ?argv2 = "[''co-curl'', ''-s'', ''2'', ''http://h/f'']"
  let ?a1 = "\<lparr>num_thread = 8, num_part = 4, chunk_size = - 1, mode = 0, part_index = - 1,
      username = [], password = [], url = ''http://h/f'', output_filename = ''f'',
      verbose = False, start = True, normal_exit = True\<rparr>"
  let ?a2 = "\<lparr>num_thread = 8, num_part = - 1, chunk_size = - 1, mode = 1, part_index = 2,
      username = [], password = [], url = ''http://h/f'', output_filename = ''f'',
      verbose = False, start = True, normal_exit = True\<rparr>"
  let ?net = "\<lambda>(p::path) (x::int) (y::int). None :: (nat \<Rightarrow> attempt) option"
  let ?yes = "\<lambda>p::path. True"
  let ?size = "\<lambda>u::string. 500::int"
  have c1: "configure ?argv1 = Inr ?a1" by code_simp
  have c2: "configure ?argv2 = Inr ?a2" by code_simp
  have s1: "1 \<le> ?size (url ?a1)" and s2: "?size (url ?a1) < MIN_FILE_SIZE_FOR_PARALLEL"
    by (simp_all add: MIN_FILE_SIZE_FOR_PARALLEL_def)
  have s3: "1 \<le> ?size (url ?a2)" and s4: "?size (url ?a2) < MIN_FILE_SIZE_FOR_PARALLEL"
    by (simp_all add: MIN_FILE_SIZE_FOR_PARALLEL_def)
  note t1 = small_file_single_range[OF c1 s1 s2, of ?net ?yes Map.empty, unfolded Let_def]
  note t2 = small_file_single_range[OF c2 s3 s4, of ?net ?yes Map.empty, unfolded Let_def]
  have h1: "part_index ?a1 \<le> 0" and h2: "0 < part_index ?a2" by simp_all
  from t1 h1 have w1: "r_calls (main ?argv1 ?size ?net ?yes Map.empty) = [(''f'', 0, 499)] \<and>
      r_status (main ?argv1 ?size ?net ?yes Map.empty) = None \<and>
      r_merged (main ?argv1 ?size ?net ?yes Map.empty) = None \<and>
      r_exit (main ?argv1 ?size ?net ?yes Map.empty) = Some 0"
    by simp
  from t2 h2 have w2: "main ?argv2 ?size ?net ?yes Map.empty = stopped Map.empty 1" by blast
  from w1 w2 show ?thesis unfolding Let_def by blast
qed

text \<open>
  C9 as the claim has it: every resource below the threshold is downloaded as a single
  range. With \<^verbatim>\<open>-s 2\<close> and 500 bytes nothing is downloaded.
\<close>

theorem small_file_with_part_index_not_downloaded:
  "let r = main [''co-curl'', ''-s'', ''2'', ''http://h/f''] (\<lambda>u. 500)
             (\<lambda>p x y. Some (\<lambda>i. Performed (Some 200) ''whole'')) (\<lambda>p. True) Map.empty
   in r_calls r = [] \<and> r_exit r = Some 1 \<and> r_disk r ''f'' = None"
  by code_simp

text \<open>
  C10, as the code has it. The part index of single-part mode is not the numeral
  written after \<^verbatim>\<open>-s\<close> but the absolute value of the \<^verbatim>\<open>int\<close> that
  \<^verbatim>\<open>atoi\<close> read from it, and the test at line 361 ends the run for the one such
  value that is negative: in single-part mode the stored index is not negative. In
  every run whose probe succeeds, whose planned part count \<open>P\<close> is above \<open>- 2 ^ 31\<close>
  (so that \<open>P - 1\<close> is an \<^verbatim>\<open>int\<close>) and whose stored index is above \<open>P - 1\<close>,
  \<open>main\<close> exits with code 1, has called \<^verbatim>\<open>download\<close> never and has left the disk
  as it was. A download made in single-part mode with such a part count is the one of
  the part with the stored index, which lies in \<open>[0, P - 1]\<close>.
\<close>

theorem single_part_index_validated:
  assumes "configure argv = Inr a0"
  shows "let S = get_file_size (url a0); a = plan S a0; f = output_filename a0;
             r = main argv get_file_size net can_create d
         in (mode a0 = 1 \<longrightarrow> 0 \<le> part_index a0) \<and>
            (0 < S \<and> - (2 ^ 31) < num_part a \<and> num_part a - 1 < part_index a0 \<longrightarrow>
               r_exit r = Some 1 \<and> r_calls r = [] \<and> r_disk r = d) \<and>
            (mode a = 1 \<and> - (2 ^ 31) < num_part a \<and> r_calls r \<noteq> [] \<longrightarrow>
               0 \<le> part_index a0 \<and> part_index a0 \<le> num_part a - 1 \<and>
               r_calls r = [(part_name f (part_index a0), part_first (chunk_size a) (part_index a0),
                             part_last S (num_part a) (chunk_size a) (part_index a0))])"
proof -
  let ?S = "get_file_size (url a0)"
  let ?a = "plan ?S a0"
  let ?r = "main argv get_file_size net can_create d"
  have r: "?r = execute ?S net can_create d a0" using assms by (rule main_execute)
  from configure_ok[OF assms] have ok: "args_ok a0" by simp
  then have ne: "normal_exit a0" and m1: "mode a0 = 1 \<longrightarrow> 0 \<le> part_index a0"
    by (auto simp: args_ok_def)
  have 2: "r_exit ?r = Some 1 \<and> r_calls ?r = [] \<and> r_disk ?r = d"
    if "0 < ?S \<and> - (2 ^ 31) < num_part ?a \<and> num_part ?a - 1 < part_index a0"
    using that by (simp add: r execute_stopped stopped_def)
  have 3: "0 \<le> part_index a0 \<and> part_index a0 \<le> num_part ?a - 1 \<and>
        r_calls ?r = [(part_name (output_filename a0) (part_index a0),
                       part_first (chunk_size ?a) (part_index a0),
                       part_last ?S (num_part ?a) (chunk_size ?a) (part_index a0))]"
    if h: "mode ?a = 1 \<and> - (2 ^ 31) < num_part ?a \<and> r_calls ?r \<noteq> []"
  proof -
    have run: "\<not> (?S \<le> 0 \<or> num_part ?a - 1 < part_index a0)"
    proof
      assume "?S \<le> 0 \<or> num_part ?a - 1 < part_index a0"
      then have "?r = stopped d 1" unfolding r by (rule execute_stopped)
      with h show False by (simp add: stopped_def)
    qed
    then have pos: "0 < ?S" and le: "part_index a0 \<le> num_part ?a - 1" by simp_all
    from h have "mode a0 = 1" by (simp add: plan_fields split: if_splits)
    with m1 have "0 \<le> part_index a0" by simp
    moreover from execute_run[OF pos le ne, of net can_create d] h
    have "r_calls ?r = [(part_name (output_filename a0) (part_index a0),
                       part_first (chunk_size ?a) (part_index a0),
                       part_last ?S (num_part ?a) (chunk_size ?a) (part_index a0))]"
      by (simp add: r Let_def plan_fields)
    ultimately show ?thesis using le by simp
  qed
  from m1 2 3 show ?thesis unfolding Let_def by blast
qed

text \<open>Four parts of a resource of 4000 bytes: the index 7 is refused, and the index
  \<^verbatim>\<open>-3\<close> is read as 3.\<close>

theorem single_part_index_validated_witness:
  "(let r = main [''co-curl'', ''-np'', ''4'', ''-s'', ''7'', ''http://h/f''] (\<lambda>u. 4000)
              (\<lambda>p x y. Some (\<lambda>i. Performed (Some 206) ''data'')) (\<lambda>p. True) Map.empty
    in r_exit r = Some 1 \<and> r_calls r = [] \<and> r_disk r = Map.empty) \<and>
   (let r = main [''co-curl'', ''-np'', ''4'', ''-s'', ''-3'', ''http://h/f''] (\<lambda>u. 4000)
              (\<lambda>p x y. Some (\<lambda>i. Performed (Some 206) ''data'')) (\<lambda>p. True) Map.empty
    in r_calls r = [(''f.part3'', 3000, 3999)])"
proof -
  let ?argv1 = "[''co-curl'', ''-np'', ''4'', ''-s'', ''7'', ''http://h/f'']"
  let ?argv2 = "[''co-curl'', ''-np'', ''4'', ''-s'', ''-3'', ''http://h/f'']"
  let ?a1 = "\<lparr>num_thread = 8, num_part = 4, chunk_size = - 1, mode = 1, part_index = 7,
      username = [], password = [], url = ''http://h/f'', output_filename = ''f'',
      verbose = False, start = True, normal_exit = True\<rparr>"
  let ?a2 = "\<lparr>num_thread = 8, num_part = 4, chunk_size = - 1, mode = 1, part_index = 3,
      username = [], password = [], url = ''http://h/f'', output_filename = ''f'',
      verbose = False, start = True, normal_exit = True\<rparr>"
  let ?net = "\<lambda>(p::path) (x::int) (y::int). Some (\<lambda>i::nat. Performed (Some 206) ''data'')"
  let ?yes = "\<lambda>p::path. True"
  let ?size = "\<lambda>u::string. 4000::int"
  let ?r1 = "main ?argv1 ?size ?net ?yes Map.empty"
  let ?r2 = "main ?argv2 ?size ?net ?yes Map.empty"
  have c1: "configure ?argv1 = Inr ?a1" by code_simp
  have c2: "configure ?argv2 = Inr ?a2" by code_simp
  have pl: "num_part (plan 4000 ?a1) = 4" "num_part (plan 4000 ?a2) = 4"
    "chunk_size (plan 4000 ?a2) = 1000" "mode (plan 4000 ?a2) = 1"
    by (simp_all add: plan_def limit_threads_def split_parts_def small_file_def Let_def cdiv_def
        MIN_FILE_SIZE_FOR_PARALLEL_def)
  have pn: "part_name ''f'' 3 = ''f.part3''"
    by (simp add: part_name_def to_string_def digits10.simps)
  note t1 = single_part_index_validated[OF c1, of ?size ?net ?yes Map.empty, unfolded Let_def]
  note t2 = single_part_index_validated[OF c2, of ?size ?net ?yes Map.empty, unfolded Let_def]
  have h1: "0 < ?size (url ?a1) \<and> - (2 ^ 31) < num_part (plan (?size (url ?a1)) ?a1) \<and>
      num_part (plan (?size (url ?a1)) ?a1) - 1 < part_index ?a1"
    by (simp add: pl)
  from t1 h1 have w1: "r_exit ?r1 = Some 1 \<and> r_calls ?r1 = [] \<and> r_disk ?r1 = Map.empty"
    by blast
  have ne: "r_calls ?r2 \<noteq> []" by code_simp
  have h2: "mode (plan (?size (url ?a2)) ?a2) = 1 \<and>
      - (2 ^ 31) < num_part (plan (?size (url ?a2)) ?a2) \<and> r_calls ?r2 \<noteq> []"
    using ne by (simp add: pl)
  from t2 h2 have "r_calls ?r2 = [(part_name (output_filename ?a2) (part_index ?a2),
        part_first (chunk_size (plan (?size (url ?a2)) ?a2)) (part_index ?a2),
        part_last (?size (url ?a2)) (num_part (plan (?size (url ?a2)) ?a2))
          (chunk_size (plan (?size (url ?a2)) ?a2)) (part_index ?a2))]"
    by blast
  then have w2: "r_calls ?r2 = [(''f.part3'', 3000, 3999)]"
    by (simp add: pl pn part_first_def part_last_def)
  from w1 w2 show ?thesis unfolding Let_def by blast
qed

text \<open>The claim as stated, for the index that is requested: with four parts of a
  resource of 4000 bytes, \<^verbatim>\<open>-s 4294967298\<close> asks for an index above \<open>P - 1 = 3\<close>;
  \<^verbatim>\<open>atoi\<close> reads it as 2, and the run downloads part 2 and exits with code 0.\<close>

theorem requested_index_above_range_downloaded:
  "decimal ''4294967298'' = 4294967298 \<and> atoi ''4294967298'' = 2 \<and>
   (let argv = [''co-curl'', ''-np'', ''4'', ''-s'', ''4294967298'', ''http://h/f''];
        r = main argv (\<lambda>u. 4000) (\<lambda>p x y. Some (\<lambda>i. Performed (Some 206) ''data''))
              (\<lambda>p. True) Map.empty
    in map_sum id (\<lambda>a. num_part (plan 4000 a)) (configure argv) = Inr 4 \<and>
       r_calls r = [(''f.part2'', 2000, 2999)] \<and> r_exit r = Some 0)"
  by code_simp

end
